theory Spec2Isabelle
  imports Complex_Main
begin

section \<open>Python primitives used by the script\<close>

text \<open>
  The script keeps its data in module-level globals, reads planetary positions from an
  ephemeris and drives everything from GUI callbacks. The embedding passes the globals
  as an explicit record, returns the record together with the exception (if any) that
  ended the call, and takes the two library collaborators as parameters: the ephemeris
  (\<open>eph[name].at(date).position.au\<close>) and the time scale (\<open>ts.utc(year, 1, 1).tt\<close>).
  Python floats are idealised as real numbers: no overflow, no NaN, exact arithmetic.
\<close>

datatype error = IndexError | KeyError | ValueError | ZeroDivisionError | EphemerisError

text \<open>A Python dict: keys in insertion order, at most one entry per key.\<close>

type_synonym 'v dict = "(string \<times> 'v) list"

fun dict_set :: "'v dict \<Rightarrow> string \<Rightarrow> 'v \<Rightarrow> 'v dict" where
  "dict_set [] k v = [(k, v)]"
| "dict_set ((k', v') # d) k v =
     (if k' = k then (k', v) # d else (k', v') # dict_set d k v)"

text \<open>\<open>dict(pairs)\<close>: later pairs overwrite earlier ones with the same key.\<close>

definition dict_of_items :: "(string \<times> 'v) list \<Rightarrow> 'v dict" where
  "dict_of_items ps = foldl (\<lambda>d (k, v). dict_set d k v) [] ps"

text \<open>\<open>d[k] += x\<close>: raises KeyError when the key is absent.\<close>

definition dict_add :: "('v::plus) dict \<Rightarrow> string \<Rightarrow> 'v \<Rightarrow> error + 'v dict" where
  "dict_add d k x =
     (case map_of d k of
        None \<Rightarrow> Inl KeyError
      | Some v \<Rightarrow> Inr (dict_set d k (v + x)))"

text \<open>\<open>a / b\<close> on numbers.\<close>

definition py_div :: "real \<Rightarrow> real \<Rightarrow> error + real" where
  "py_div a b = (if b = 0 then Inl ZeroDivisionError else Inr (a / b))"

text \<open>\<open>xs.index(x)\<close>; the script only asks for elements of the list itself.\<close>

fun index_of :: "'a list \<Rightarrow> 'a \<Rightarrow> nat" where
  "index_of [] x = 0"
| "index_of (y # ys) x = (if y = x then 0 else Suc (index_of ys x))"

text \<open>\<open>range(start, stop, step)\<close>: ascending for a positive step, descending for a
  negative one, ValueError for step 0.\<close>

function range_up :: "int \<Rightarrow> int \<Rightarrow> int \<Rightarrow> int list" where
  "range_up i stop step =
     (if 0 < step \<and> i < stop then i # range_up (i + step) stop step else [])"
  by pat_completeness auto
termination
  by (relation "measure (\<lambda>(i, stop, step). nat (stop - i))") auto

function range_down :: "int \<Rightarrow> int \<Rightarrow> int \<Rightarrow> int list" where
  "range_down i stop step =
     (if step < 0 \<and> stop < i then i # range_down (i + step) stop step else [])"
  by pat_completeness auto
termination
  by (relation "measure (\<lambda>(i, stop, step). nat (i - stop))") auto

declare range_up.simps [simp del] range_down.simps [simp del]

definition py_range :: "int \<Rightarrow> int \<Rightarrow> int \<Rightarrow> error + int list" where
  "py_range start stop step =
     (if step = 0 then Inl ValueError
      else if 0 < step then Inr (range_up start stop step)
      else Inr (range_down start stop step))"

text \<open>Rounding to the nearest integer, halves to the even neighbour (\<open>np.rint\<close>), and
  rounding to two decimals as \<open>np.round(x, 2)\<close> and \<open>round(x, 2)\<close> do.\<close>

definition rint :: "real \<Rightarrow> int" where
  "rint x =
     (let f = \<lfloor>x\<rfloor>; r = x - of_int f
      in if r < 1 / 2 then f
         else if 1 / 2 < r then f + 1
         else if even f then f else f + 1)"

definition round2 :: "real \<Rightarrow> real" where
  "round2 x = of_int (rint (x * 100)) / 100"

text \<open>\<open>np.argmin\<close>: index of the first occurrence of the minimum; ValueError on an
  empty array.\<close>

fun argmin_scan :: "real list \<Rightarrow> nat \<Rightarrow> real \<Rightarrow> nat \<Rightarrow> nat" where
  "argmin_scan [] i best best_i = best_i"
| "argmin_scan (x # xs) i best best_i =
     (if x < best then argmin_scan xs (Suc i) x i
      else argmin_scan xs (Suc i) best best_i)"

definition argmin :: "real list \<Rightarrow> error + nat" where
  "argmin xs =
     (case xs of
        [] \<Rightarrow> Inl ValueError
      | x # rest \<Rightarrow> Inr (argmin_scan rest 1 x 0))"

section \<open>Vectors\<close>

type_synonym vec3 = "real \<times> real \<times> real"
type_synonym vec2 = "real \<times> real"

definition sub3 :: "vec3 \<Rightarrow> vec3 \<Rightarrow> vec3" where
  "sub3 a b = (case a of (ax, ay, az) \<Rightarrow> case b of (bx, by, bz) \<Rightarrow> (ax - bx, ay - by, az - bz))"

definition sub2 :: "vec2 \<Rightarrow> vec2 \<Rightarrow> vec2" where
  "sub2 a b = (case a of (ax, ay) \<Rightarrow> case b of (bx, by) \<Rightarrow> (ax - bx, ay - by))"

text \<open>The slice \<open>v[:2]\<close>.\<close>

definition first2 :: "vec3 \<Rightarrow> vec2" where
  "first2 v = (case v of (x, y, z) \<Rightarrow> (x, y))"

text \<open>\<open>np.linalg.norm\<close> of a planar vector.\<close>

definition norm2 :: "vec2 \<Rightarrow> real" where
  "norm2 v = (case v of (x, y) \<Rightarrow> sqrt (x\<^sup>2 + y\<^sup>2))"

section \<open>Data mappings and globals\<close>

definition planet_map :: "string dict" where
  "planet_map =
     [(''Mercury'', ''MERCURY''),
      (''Venus'', ''VENUS''),
      (''Earth'', ''EARTH''),
      (''Mars'', ''MARS''),
      (''Jupiter'', ''JUPITER BARYCENTER''),
      (''Saturn'', ''SATURN BARYCENTER''),
      (''Uranus'', ''URANUS BARYCENTER''),
      (''Neptune'', ''NEPTUNE BARYCENTER'')]"

definition planets :: "string list" where
  "planets = map fst planet_map"

definition table_planets :: "string list" where
  "table_planets = filter (\<lambda>p. p \<noteq> ''Earth'') planets"

text \<open>The animation object: how many frames it was created with, the position of its
  frame iterator and whether its timer (\<open>event_source\<close>) is running.\<close>

record animation =
  ani_frames :: nat
  ani_next :: nat
  ani_running :: bool

text \<open>The globals, and the text held by the two year text boxes.\<close>

record state =
  start_year :: int
  end_year :: int
  step_days :: int
  dates :: "real list"
  closest_counts :: "int dict"
  distance_sums :: "real dict"
  frame_count :: int
  ani :: "animation option"
  textbox_start :: string
  textbox_end :: string

type_synonym ephemeris = "string \<Rightarrow> real \<Rightarrow> vec3 option"

section \<open>Time scale and date calculation\<close>

text \<open>The list comprehension of \<open>update_dates\<close>, in the three globals it reads.
  \<open>jan1_tt y\<close> stands for \<open>ts.utc(y, 1, 1).tt\<close>.\<close>

definition time_sequence :: "(int \<Rightarrow> real) \<Rightarrow> int \<Rightarrow> int \<Rightarrow> int \<Rightarrow> error + real list" where
  "time_sequence jan1_tt s e d =
     (case py_range 0 ((e - s) * 365) d of
        Inl err \<Rightarrow> Inl err
      | Inr offsets \<Rightarrow> Inr (map (\<lambda>i. jan1_tt s + of_int i) offsets))"

definition update_dates :: "(int \<Rightarrow> real) \<Rightarrow> state \<Rightarrow> state \<times> error option" where
  "update_dates jan1_tt st =
     (case time_sequence jan1_tt (start_year st) (end_year st) (step_days st) of
        Inl err \<Rightarrow> (st, Some err)
      | Inr ds \<Rightarrow> (st\<lparr>dates := ds\<rparr>, None))"

section \<open>Statistics table\<close>

record table_row =
  row_index :: nat
  row_planet :: string
  row_current :: real
  row_average :: real
  row_rank :: nat
  row_percentage :: real

text \<open>\<open>sorted\<close> is stable, as \<open>sort_key\<close> is. The keys of a dict are distinct, so
  sorting its items by value and keeping the keys is sorting its keys by their values.\<close>

definition sorted_planets :: "real dict \<Rightarrow> string list" where
  "sorted_planets current_distances =
     map fst (sort_key snd (filter (\<lambda>(p, v). p \<noteq> ''Earth'') current_distances))"

definition closest_order :: "real dict \<Rightarrow> nat dict" where
  "closest_order current_distances =
     (let sp = sorted_planets current_distances
      in dict_of_items (map (\<lambda>planet. (planet, index_of sp planet + 1)) sp))"

text \<open>One value of the \<open>closest_percentage\<close> comprehension.\<close>

definition percentage_of :: "state \<Rightarrow> string \<Rightarrow> error + real" where
  "percentage_of st planet =
     (if 0 < frame_count st then
        (case map_of (closest_counts st) planet of
           None \<Rightarrow> Inl KeyError
         | Some c \<Rightarrow>
             (case py_div (of_int c) (of_int (frame_count st)) of
                Inl err \<Rightarrow> Inl err
              | Inr q \<Rightarrow> Inr (round2 (q * 100))))
      else Inr 0)"

text \<open>The comprehension itself, filling the dict in the order of the planets.\<close>

fun closest_percentage :: "state \<Rightarrow> real dict \<Rightarrow> string list \<Rightarrow> error + real dict" where
  "closest_percentage st acc [] = Inr acc"
| "closest_percentage st acc (planet # rest) =
     (case percentage_of st planet of
        Inl err \<Rightarrow> Inl err
      | Inr pc \<Rightarrow> closest_percentage st (dict_set acc planet pc) rest)"

text \<open>The expression assigned to \<open>avg_distance\<close>.\<close>

definition avg_distance :: "state \<Rightarrow> string \<Rightarrow> error + real" where
  "avg_distance st planet =
     (if 0 < frame_count st then
        (case map_of (distance_sums st) planet of
           None \<Rightarrow> Inl KeyError
         | Some s \<Rightarrow> py_div s (of_int (frame_count st)))
      else Inr 0)"

text \<open>The loop that fills the table, one row per planet of \<open>table_planets\<close> that has a
  current distance; the cell texts are the formatted fields of the row.\<close>

fun table_rows ::
  "state \<Rightarrow> real dict \<Rightarrow> nat dict \<Rightarrow> real dict \<Rightarrow> nat \<Rightarrow> string list \<Rightarrow> error + table_row list"
where
  "table_rows st cd order pct i [] = Inr []"
| "table_rows st cd order pct i (planet # rest) =
     (case map_of cd planet of
        None \<Rightarrow> table_rows st cd order pct (Suc i) rest
      | Some cur \<Rightarrow>
          (case avg_distance st planet of
             Inl err \<Rightarrow> Inl err
           | Inr avg \<Rightarrow>
               (case map_of order planet of
                  None \<Rightarrow> Inl KeyError
                | Some rank \<Rightarrow>
                    (case map_of pct planet of
                       None \<Rightarrow> Inl KeyError
                     | Some pc \<Rightarrow>
                         (case table_rows st cd order pct (Suc i) rest of
                            Inl err \<Rightarrow> Inl err
                          | Inr rows \<Rightarrow>
                              Inr (\<lparr>row_index = i + 1, row_planet = planet,
                                    row_current = cur, row_average = avg,
                                    row_rank = rank, row_percentage = pc\<rparr> # rows))))))"

definition update_table :: "state \<Rightarrow> real dict \<Rightarrow> error + table_row list" where
  "update_table st current_distances =
     (let order = closest_order current_distances
      in case closest_percentage st [] table_planets of
           Inl err \<Rightarrow> Inl err
         | Inr pct \<Rightarrow> table_rows st current_distances order pct 0 table_planets)"

section \<open>Processing one frame\<close>

text \<open>\<open>eph[name].at(date).position.au - sun.at(date).position.au\<close>; a lookup that the
  ephemeris cannot answer raises.\<close>

definition heliocentric :: "ephemeris \<Rightarrow> string \<Rightarrow> real \<Rightarrow> error + vec3" where
  "heliocentric eph name date =
     (case eph name date of
        None \<Rightarrow> Inl EphemerisError
      | Some p \<Rightarrow>
          (case eph ''SUN'' date of
             None \<Rightarrow> Inl EphemerisError
           | Some s \<Rightarrow> Inr (sub3 p s)))"

fun planet_positions :: "ephemeris \<Rightarrow> real \<Rightarrow> string list \<Rightarrow> error + vec2 list" where
  "planet_positions eph date [] = Inr []"
| "planet_positions eph date (p # ps) =
     (case map_of planet_map p of
        None \<Rightarrow> Inl KeyError
      | Some target \<Rightarrow>
          (case heliocentric eph target date of
             Inl err \<Rightarrow> Inl err
           | Inr v \<Rightarrow>
               (case planet_positions eph date ps of
                  Inl err \<Rightarrow> Inl err
                | Inr vs \<Rightarrow> Inr (first2 v # vs))))"

record geometry =
  geo_earth :: vec3
  geo_planets :: "vec2 list"
  geo_distances :: "real list"

text \<open>The lookups and the distance computation of \<open>update\<close>.\<close>

definition frame_geometry :: "ephemeris \<Rightarrow> real \<Rightarrow> error + geometry" where
  "frame_geometry eph date =
     (case heliocentric eph ''EARTH'' date of
        Inl err \<Rightarrow> Inl err
      | Inr earth_pos \<Rightarrow>
          (case planet_positions eph date table_planets of
             Inl err \<Rightarrow> Inl err
           | Inr pps \<Rightarrow>
               Inr \<lparr>geo_earth = earth_pos, geo_planets = pps,
                    geo_distances = map (\<lambda>p. norm2 (sub2 p (first2 earth_pos))) pps\<rparr>))"

text \<open>\<open>[p for p in planets if p != "Earth"][min_index]\<close> with
  \<open>min_index = np.argmin(distances)\<close>.\<close>

definition select_closest :: "real list \<Rightarrow> error + string" where
  "select_closest distances =
     (case argmin distances of
        Inl err \<Rightarrow> Inl err
      | Inr min_index \<Rightarrow>
          if min_index < length table_planets then Inr (table_planets ! min_index)
          else Inl IndexError)"

text \<open>The loop \<open>distance_sums[planet] += dist\<close>; an exception leaves the sums added
  so far in place.\<close>

fun add_distances :: "real dict \<Rightarrow> (string \<times> real) list \<Rightarrow> real dict \<times> error option" where
  "add_distances totals [] = (totals, None)"
| "add_distances totals ((planet, v) # rest) =
     (case dict_add totals planet v of
        Inl err \<Rightarrow> (totals, Some err)
      | Inr totals' \<Rightarrow> add_distances totals' rest)"

text \<open>What a frame hands to the plot, the table and the pie chart.\<close>

record frame_output =
  out_earth :: vec3
  out_positions :: "vec2 list"
  out_distances :: "real dict"
  out_closest :: string
  out_table :: "table_row list"

text \<open>The tail of \<open>update\<close>: counting the closest planet and filling the table. The
  calls that only draw (the scatter offsets, the title with the date, the pie chart of
  the positive counts) change none of the globals and are left out; what they are given
  is in the frame output.\<close>

definition count_closest :: "state \<Rightarrow> geometry \<Rightarrow> real dict \<Rightarrow> string \<Rightarrow> state \<times> (error + frame_output)" where
  "count_closest st2 geo current_distances closest_planet =
     (case (if closest_planet \<noteq> []
            then dict_add (closest_counts st2) closest_planet 1
            else Inr (closest_counts st2)) of
        Inl err \<Rightarrow> (st2, Inl err)
      | Inr counts \<Rightarrow>
          (let st3 = st2\<lparr>closest_counts := counts\<rparr>
           in (case update_table st3 current_distances of
                 Inl err \<Rightarrow> (st3, Inl err)
               | Inr rows \<Rightarrow>
                   (st3, Inr \<lparr>out_earth = geo_earth geo,
                              out_positions = geo_planets geo,
                              out_distances = current_distances,
                              out_closest = closest_planet,
                              out_table = rows\<rparr>))))"

text \<open>The middle of \<open>update\<close>: the rounded distances and the running sums.\<close>

definition accumulate :: "state \<Rightarrow> geometry \<Rightarrow> string \<Rightarrow> state \<times> (error + frame_output)" where
  "accumulate st1 geo closest_planet =
     (let current_distances =
            dict_of_items (zip table_planets (map round2 (geo_distances geo)))
      in (case add_distances (distance_sums st1) current_distances of
            (totals, Some err) \<Rightarrow> (st1\<lparr>distance_sums := totals\<rparr>, Inl err)
          | (totals, None) \<Rightarrow>
              count_closest (st1\<lparr>distance_sums := totals\<rparr>) geo current_distances
                closest_planet))"

definition update :: "ephemeris \<Rightarrow> nat \<Rightarrow> state \<Rightarrow> state \<times> (error + frame_output)" where
  "update eph frame st =
     (if length (dates st) \<le> frame then (st, Inl IndexError)
      else
        (let date = dates st ! frame;
             st1 = st\<lparr>frame_count := frame_count st + 1\<rparr>
         in (case frame_geometry eph date of
               Inl err \<Rightarrow> (st1, Inl err)
             | Inr geo \<Rightarrow>
                 (case select_closest (geo_distances geo) of
                    Inl err \<Rightarrow> (st1, Inl err)
                  | Inr closest_planet \<Rightarrow> accumulate st1 geo closest_planet))))"

section \<open>Simulation control\<close>

text \<open>The three assignments at the head of \<open>start_simulation\<close> (the reset).\<close>

definition reset :: "state \<Rightarrow> state" where
  "reset st =
     st\<lparr>frame_count := 0,
        closest_counts := map (\<lambda>planet. (planet, 0)) planets,
        distance_sums := map (\<lambda>planet. (planet, 0)) planets\<rparr>"

definition start_simulation :: "(int \<Rightarrow> real) \<Rightarrow> state \<Rightarrow> state \<times> error option" where
  "start_simulation jan1_tt st =
     (case update_dates jan1_tt (reset st) of
        (st1, Some err) \<Rightarrow> (st1, Some err)
      | (st1, None) \<Rightarrow>
          let a = (case ani st1 of
                     None \<Rightarrow> \<lparr>ani_frames = length (dates st1), ani_next = 0,
                              ani_running = False\<rparr>
                   | Some a \<Rightarrow> a)
          in (st1\<lparr>ani := Some (a\<lparr>ani_running := True\<rparr>)\<rparr>, None))"

definition stop_simulation :: "state \<Rightarrow> state" where
  "stop_simulation st =
     (case ani st of
        None \<Rightarrow> st
      | Some a \<Rightarrow> st\<lparr>ani := Some (a\<lparr>ani_running := False\<rparr>)\<rparr>)"

text \<open>The timer of the animation: while it runs, each tick takes the next frame number
  from the iterator and calls \<open>update\<close>; with no frame left it stops.\<close>

definition timer_tick :: "ephemeris \<Rightarrow> state \<Rightarrow> state \<times> error option" where
  "timer_tick eph st =
     (case ani st of
        None \<Rightarrow> (st, None)
      | Some a \<Rightarrow>
          if \<not> ani_running a then (st, None)
          else if ani_next a < ani_frames a then
            (case update eph (ani_next a) (st\<lparr>ani := Some (a\<lparr>ani_next := ani_next a + 1\<rparr>)\<rparr>) of
               (st', Inl err) \<Rightarrow> (st', Some err)
             | (st', Inr out) \<Rightarrow> (st', None))
          else (st\<lparr>ani := Some (a\<lparr>ani_running := False\<rparr>)\<rparr>, None))"

text \<open>Typing into a year text box changes the text the box holds. No callback is
  registered on either box.\<close>

definition type_start_year :: "string \<Rightarrow> state \<Rightarrow> state" where
  "type_start_year s st = st\<lparr>textbox_start := s\<rparr>"

definition type_end_year :: "string \<Rightarrow> state \<Rightarrow> state" where
  "type_end_year s st = st\<lparr>textbox_end := s\<rparr>"

text \<open>The globals as the module assigns them, and as it leaves them (after its call of
  \<open>update_dates\<close>) before the window opens.\<close>

definition module_globals :: state where
  "module_globals =
     \<lparr>start_year = 0, end_year = 2999, step_days = 1, dates = [],
      closest_counts = map (\<lambda>planet. (planet, 0)) planets,
      distance_sums = map (\<lambda>planet. (planet, 0)) planets,
      frame_count = 0, ani = None,
      textbox_start = ''0'', textbox_end = ''2999''\<rparr>"

definition initial_state :: "(int \<Rightarrow> real) \<Rightarrow> state" where
  "initial_state jan1_tt = fst (update_dates jan1_tt module_globals)"

text \<open>A playback: the frames in order, stopping at the first exception.\<close>

fun run_frames :: "ephemeris \<Rightarrow> nat list \<Rightarrow> state \<Rightarrow> state \<times> (error + frame_output list)" where
  "run_frames eph [] st = (st, Inr [])"
| "run_frames eph (f # fs) st =
     (case update eph f st of
        (st1, Inl err) \<Rightarrow> (st1, Inl err)
      | (st1, Inr out) \<Rightarrow>
          (case run_frames eph fs st1 of
             (st2, Inl err) \<Rightarrow> (st2, Inl err)
           | (st2, Inr outs) \<Rightarrow> (st2, Inr (out # outs))))"

section \<open>Sample inputs\<close>

text \<open>An ephemeris with the Sun and the Earth at the origin and the planets on the x
  axis, Mercury at 0.013 AU and Venus at 0.011 AU, the same at every date.\<close>

definition sample_ephemeris :: ephemeris where
  "sample_ephemeris name date =
     map_of
       [(''SUN'', (0, 0, 0)), (''EARTH'', (0, 0, 0)),
        (''MERCURY'', (13 / 1000, 0, 0)), (''VENUS'', (11 / 1000, 0, 0)),
        (''MARS'', (1, 0, 0)), (''JUPITER BARYCENTER'', (2, 0, 0)),
        (''SATURN BARYCENTER'', (3, 0, 0)), (''URANUS BARYCENTER'', (4, 0, 0)),
        (''NEPTUNE BARYCENTER'', (5, 0, 0))] name"

text \<open>An ephemeris that covers no date at all.\<close>

definition empty_ephemeris :: ephemeris where
  "empty_ephemeris name date = None"

text \<open>An ephemeris that agrees with the sample at date 0 and covers no other date.\<close>

definition day_zero_ephemeris :: ephemeris where
  "day_zero_ephemeris name date = (if date = 0 then sample_ephemeris name date else None)"

text \<open>A time scale that puts January 1 of year \<open>y\<close> at day \<open>365 y\<close>.\<close>

definition sample_jan1_tt :: "int \<Rightarrow> real" where
  "sample_jan1_tt y = real_of_int (365 * y)"

text \<open>The module's globals with a two-day date list.\<close>

definition sample_state :: state where
  "sample_state = module_globals\<lparr>dates := [0, 1]\<rparr>"

text \<open>What the sample ephemeris makes of a frame: Venus is the closest planet, and
  Mercury and Venus both round to 0.01 AU. After \<open>n\<close> such frames the statistics are
  \<open>sample_after n\<close>.\<close>

definition sample_output :: frame_output where
  "sample_output =
     \<lparr>out_earth = (0, 0, 0),
      out_positions = [(13 / 1000, 0), (11 / 1000, 0), (1, 0), (2, 0), (3, 0), (4, 0), (5, 0)],
      out_distances =
        [(''Mercury'', 1 / 100), (''Venus'', 1 / 100), (''Mars'', 1), (''Jupiter'', 2),
         (''Saturn'', 3), (''Uranus'', 4), (''Neptune'', 5)],
      out_closest = ''Venus'',
      out_table =
        [\<lparr>row_index = 1, row_planet = ''Mercury'', row_current = 1 / 100,
          row_average = 1 / 100, row_rank = 1, row_percentage = 0\<rparr>,
         \<lparr>row_index = 2, row_planet = ''Venus'', row_current = 1 / 100,
          row_average = 1 / 100, row_rank = 2, row_percentage = 100\<rparr>,
         \<lparr>row_index = 3, row_planet = ''Mars'', row_current = 1,
          row_average = 1, row_rank = 3, row_percentage = 0\<rparr>,
         \<lparr>row_index = 4, row_planet = ''Jupiter'', row_current = 2,
          row_average = 2, row_rank = 4, row_percentage = 0\<rparr>,
         \<lparr>row_index = 5, row_planet = ''Saturn'', row_current = 3,
          row_average = 3, row_rank = 5, row_percentage = 0\<rparr>,
         \<lparr>row_index = 6, row_planet = ''Uranus'', row_current = 4,
          row_average = 4, row_rank = 6, row_percentage = 0\<rparr>,
         \<lparr>row_index = 7, row_planet = ''Neptune'', row_current = 5,
          row_average = 5, row_rank = 7, row_percentage = 0\<rparr>]\<rparr>"

definition sample_after :: "int \<Rightarrow> state" where
  "sample_after n =
     sample_state
       \<lparr>closest_counts :=
          [(''Mercury'', 0), (''Venus'', n), (''Earth'', 0), (''Mars'', 0), (''Jupiter'', 0),
           (''Saturn'', 0), (''Uranus'', 0), (''Neptune'', 0)],
        distance_sums :=
          [(''Mercury'', real_of_int n / 100), (''Venus'', real_of_int n / 100),
           (''Earth'', 0), (''Mars'', real_of_int n), (''Jupiter'', real_of_int (2 * n)),
           (''Saturn'', real_of_int (3 * n)), (''Uranus'', real_of_int (4 * n)),
           (''Neptune'', real_of_int (5 * n))],
        frame_count := n\<rparr>"

section \<open>Facts about the primitives\<close>

lemma map_of_dict_set: "map_of (dict_set d k v) = (map_of d)(k \<mapsto> v)"
  by (induction d k v rule: dict_set.induct) (auto simp: fun_eq_iff)

lemma map_of_dict_of_keys:
  "map_of (foldl (\<lambda>d (k, v). dict_set d k v) acc (map (\<lambda>p. (p, f p)) xs)) k =
     (if k \<in> set xs then Some (f k) else map_of acc k)"
  by (induction xs arbitrary: acc) (auto simp: map_of_dict_set)

lemma dict_set_fresh: "k \<notin> fst ` set d \<Longrightarrow> dict_set d k v = d @ [(k, v)]"
  by (induction d k v rule: dict_set.induct) auto

lemma foldl_dict_set_distinct:
  "distinct (map fst (acc @ ps)) \<Longrightarrow> foldl (\<lambda>d (k, v). dict_set d k v) acc ps = acc @ ps"
proof (induction ps arbitrary: acc)
  case Nil
  then show ?case by simp
next
  case (Cons p ps)
  obtain k v where p: "p = (k, v)" by (cases p)
  from Cons.prems have fresh: "k \<notin> fst ` set acc" by (auto simp: p)
  from Cons.prems have "distinct (map fst ((acc @ [(k, v)]) @ ps))" by (auto simp: p)
  from Cons.IH [OF this] show ?case by (simp add: p dict_set_fresh [OF fresh])
qed

lemma dict_of_items_distinct: "distinct (map fst ps) \<Longrightarrow> dict_of_items ps = ps"
  using foldl_dict_set_distinct [of "[]" ps] by (simp add: dict_of_items_def)

lemma table_planets_eq:
  "table_planets =
     [''Mercury'', ''Venus'', ''Mars'', ''Jupiter'', ''Saturn'', ''Uranus'', ''Neptune'']"
  by (simp add: table_planets_def planets_def planet_map_def)

lemma planets_eq:
  "planets =
     [''Mercury'', ''Venus'', ''Earth'', ''Mars'', ''Jupiter'', ''Saturn'', ''Uranus'',
      ''Neptune'']"
  by (simp add: planets_def planet_map_def)

lemma distinct_table_planets: "distinct table_planets"
  by (simp add: table_planets_eq)

lemma length_table_planets: "length table_planets = 7"
  by (simp add: table_planets_eq)

lemma Earth_notin_table_planets: "''Earth'' \<notin> set table_planets"
  by (simp add: table_planets_def)

lemma table_planets_subset: "set table_planets \<subseteq> set planets"
  by (auto simp: table_planets_def)

section \<open>Reset, start and stop\<close>

text \<open>
  Claim C10. The reset is idempotent: resetting a reset state changes nothing, and a reset
  state has frame count 0 and one zero entry per planet in both dictionaries. The whole
  start callback, which performs the reset and regenerates the dates, is idempotent on
  the globals as well.
\<close>

theorem reset_idempotent:
  "reset (reset st) = reset st
   \<and> frame_count (reset st) = 0
   \<and> map fst (closest_counts (reset st)) = planets
   \<and> map snd (closest_counts (reset st)) = replicate (length planets) 0
   \<and> map fst (distance_sums (reset st)) = planets
   \<and> map snd (distance_sums (reset st)) = replicate (length planets) 0
   \<and> fst (start_simulation jan1_tt (fst (start_simulation jan1_tt st)))
       = fst (start_simulation jan1_tt st)"
proof -
  have a: "reset (reset st) = reset st" by (simp add: reset_def)
  have s: "fst (start_simulation jan1_tt (fst (start_simulation jan1_tt st)))
       = fst (start_simulation jan1_tt st)"
    by (simp add: start_simulation_def update_dates_def reset_def
         split: sum.splits option.splits prod.splits)
  show ?thesis using a s by (simp add: reset_def comp_def map_replicate_const)
qed

text \<open>
  Claim C7. Whatever the state, the start callback leaves frame count 0 and all-zero
  dictionaries (it processes no frame itself); the stop callback leaves the three
  statistics untouched, and a timer tick after it processes no frame.
\<close>

theorem start_resets_stop_keeps:
  "frame_count (fst (start_simulation jan1_tt st)) = 0
   \<and> closest_counts (fst (start_simulation jan1_tt st)) = map (\<lambda>planet. (planet, 0)) planets
   \<and> distance_sums (fst (start_simulation jan1_tt st)) = map (\<lambda>planet. (planet, 0)) planets
   \<and> frame_count (stop_simulation st) = frame_count st
   \<and> closest_counts (stop_simulation st) = closest_counts st
   \<and> distance_sums (stop_simulation st) = distance_sums st
   \<and> timer_tick eph (stop_simulation st) = (stop_simulation st, None)"
  by (simp add: start_simulation_def update_dates_def reset_def stop_simulation_def
        timer_tick_def split: sum.splits option.splits prod.splits)

section \<open>The time sequence\<close>

lemma length_range_up:
  "0 < step \<Longrightarrow>
     int (length (range_up i stop step)) = max 0 \<lceil>real_of_int (stop - i) / real_of_int step\<rceil>"
proof (induction i stop step rule: range_up.induct)
  case (1 i stop step)
  show ?case
  proof (cases "i < stop")
    case True
    with "1.prems" have IH:
      "int (length (range_up (i + step) stop step)) =
         max 0 \<lceil>real_of_int (stop - (i + step)) / real_of_int step\<rceil>"
      using "1.IH" by simp
    have "real_of_int (stop - (i + step)) / real_of_int step =
            real_of_int (stop - i) / real_of_int step - 1"
      using "1.prems" by (simp add: field_simps)
    then have c: "\<lceil>real_of_int (stop - (i + step)) / real_of_int step\<rceil> =
                  \<lceil>real_of_int (stop - i) / real_of_int step\<rceil> - 1"
      by simp
    have "0 < real_of_int (stop - i) / real_of_int step"
      using True "1.prems" by simp
    then have pos: "1 \<le> \<lceil>real_of_int (stop - i) / real_of_int step\<rceil>"
      by linarith
    have "range_up i stop step = i # range_up (i + step) stop step"
      using True "1.prems" by (subst range_up.simps) simp
    then show ?thesis using IH c pos by simp
  next
    case False
    then have "real_of_int (stop - i) / real_of_int step \<le> 0"
      using "1.prems" by (simp add: divide_nonpos_pos)
    then have "\<lceil>real_of_int (stop - i) / real_of_int step\<rceil> \<le> 0"
      by (simp add: ceiling_le_zero)
    moreover have "range_up i stop step = []"
      using False by (subst range_up.simps) simp
    ultimately show ?thesis by simp
  qed
qed

lemma nth_range_up:
  "0 < step \<Longrightarrow> k < length (range_up i stop step) \<Longrightarrow>
     range_up i stop step ! k = i + int k * step"
proof (induction i stop step arbitrary: k rule: range_up.induct)
  case (1 i stop step)
  show ?case
  proof (cases "i < stop")
    case True
    then have eq: "range_up i stop step = i # range_up (i + step) stop step"
      using "1.prems" by (subst range_up.simps) simp
    show ?thesis
    proof (cases k)
      case 0
      then show ?thesis by (simp add: eq)
    next
      case (Suc j)
      with "1.prems" eq have "j < length (range_up (i + step) stop step)" by simp
      with "1.IH" [of j] True "1.prems" have "range_up (i + step) stop step ! j = i + step + int j * step"
        by simp
      then show ?thesis by (simp add: eq Suc algebra_simps)
    qed
  next
    case False
    then have "range_up i stop step = []" by (subst range_up.simps) simp
    with "1.prems" show ?thesis by simp
  qed
qed

text \<open>
  Claim C4. For a positive step \<open>d\<close> the generator returns a list of time points, the
  \<open>k\<close>-th of them \<open>k * d\<close> days after January 1 of year \<open>s\<close>; for years \<open>s \<le> e\<close> it
  has exactly \<open>\<lceil>(e - s) * 365 / d\<rceil>\<close> points (for \<open>e < s\<close> it is empty). For 2000, 2001
  and a step of one day that is 365 points.
\<close>

theorem time_sequence_points:
  assumes "0 < d"
  shows "\<exists>ts. time_sequence jan1_tt s e d = Inr ts
           \<and> int (length ts) = max 0 \<lceil>real_of_int ((e - s) * 365) / real_of_int d\<rceil>
           \<and> (s \<le> e \<longrightarrow>
                int (length ts) = \<lceil>real_of_int ((e - s) * 365) / real_of_int d\<rceil>)
           \<and> (\<forall>k<length ts. ts ! k = jan1_tt s + real_of_int (int k * d))"
proof -
  let ?offs = "range_up 0 ((e - s) * 365) d"
  let ?ts = "map (\<lambda>i. jan1_tt s + real_of_int i) ?offs"
  have ts: "time_sequence jan1_tt s e d = Inr ?ts"
    using assms by (simp add: time_sequence_def py_range_def)
  have len: "int (length ?ts) = max 0 \<lceil>real_of_int ((e - s) * 365) / real_of_int d\<rceil>"
    using length_range_up [OF assms, of 0 "(e - s) * 365"] by simp
  have exact: "int (length ?ts) = \<lceil>real_of_int ((e - s) * 365) / real_of_int d\<rceil>"
    if "s \<le> e"
  proof -
    from that assms have "0 \<le> real_of_int ((e - s) * 365) / real_of_int d" by simp
    then have "0 \<le> \<lceil>real_of_int ((e - s) * 365) / real_of_int d\<rceil>" by linarith
    with len show ?thesis by simp
  qed
  have nth: "\<forall>k<length ?ts. ?ts ! k = jan1_tt s + real_of_int (int k * d)"
    using nth_range_up [OF assms, of _ 0 "(e - s) * 365"] by simp
  show ?thesis using ts len exact nth by blast
qed

theorem time_sequence_points_witness:
  "(0::int) < 1 \<and> (2000::int) \<le> 2001
   \<and> (\<exists>ts. time_sequence sample_jan1_tt 2000 2001 1 = Inr ts
         \<and> length ts = 365
         \<and> (\<forall>k<length ts. ts ! k = sample_jan1_tt 2000 + real_of_int (int k * 1)))"
  using time_sequence_points [of 1 sample_jan1_tt 2000 2001] by simp

section \<open>The statistics table\<close>

lemma py_div_nonzero: "b \<noteq> 0 \<Longrightarrow> py_div a b = Inr (a / b)"
  by (simp add: py_div_def)

lemma percentage_of_no_zero_division: "percentage_of st planet \<noteq> Inl ZeroDivisionError"
  by (simp add: percentage_of_def py_div_def split: option.splits)

lemma avg_distance_no_zero_division: "avg_distance st planet \<noteq> Inl ZeroDivisionError"
  by (simp add: avg_distance_def py_div_def split: option.splits)

lemma closest_percentage_no_zero_division:
  "closest_percentage st acc ps \<noteq> Inl ZeroDivisionError"
  using percentage_of_no_zero_division
  by (induction ps arbitrary: acc) (auto split: sum.splits)

lemma table_rows_no_zero_division:
  "table_rows st cd order pct i ps \<noteq> Inl ZeroDivisionError"
  using avg_distance_no_zero_division
  by (induction ps arbitrary: i) (auto split: sum.splits option.splits)

lemma update_table_no_zero_division: "update_table st cd \<noteq> Inl ZeroDivisionError"
  using closest_percentage_no_zero_division [of st "[]" table_planets]
        table_rows_no_zero_division
  by (auto simp: update_table_def Let_def split: sum.splits)

lemma closest_percentage_zero_frames:
  "frame_count st = 0 \<Longrightarrow>
     closest_percentage st acc ps =
       Inr (foldl (\<lambda>d (k, v). dict_set d k v) acc (map (\<lambda>p. (p, 0)) ps))"
  by (induction ps arbitrary: acc) (auto simp: percentage_of_def)

lemma set_sorted_planets:
  "set (sorted_planets cd) = {p. p \<in> fst ` set cd \<and> p \<noteq> ''Earth''}"
  by (auto simp: sorted_planets_def image_iff)

lemma map_of_closest_order:
  "map_of (closest_order cd) p =
     (if p \<in> fst ` set cd \<and> p \<noteq> ''Earth''
      then Some (index_of (sorted_planets cd) p + 1) else None)"
  using map_of_dict_of_keys [of "[]" "\<lambda>p. index_of (sorted_planets cd) p + 1" "sorted_planets cd" p]
  by (simp add: closest_order_def dict_of_items_def Let_def set_sorted_planets)

lemma table_rows_zero_frames:
  assumes "frame_count st = 0"
    and "\<forall>p\<in>set ps. p \<noteq> ''Earth'' \<and> map_of pct p = Some 0"
  shows "\<exists>rows. table_rows st cd (closest_order cd) pct i ps = Inr rows
           \<and> map row_average rows = replicate (length rows) 0
           \<and> map row_percentage rows = replicate (length rows) 0
           \<and> map row_planet rows = filter (\<lambda>p. map_of cd p \<noteq> None) ps"
  using assms(2)
proof (induction ps arbitrary: i)
  case Nil
  then show ?case by simp
next
  case (Cons p ps)
  from Cons.prems have p: "p \<noteq> ''Earth''" "map_of pct p = Some 0" by simp_all
  from Cons.prems have "\<forall>q\<in>set ps. q \<noteq> ''Earth'' \<and> map_of pct q = Some 0" by simp
  from Cons.IH [OF this, of "Suc i"] obtain rows where rows:
    "table_rows st cd (closest_order cd) pct (Suc i) ps = Inr rows"
    "map row_average rows = replicate (length rows) 0"
    "map row_percentage rows = replicate (length rows) 0"
    "map row_planet rows = filter (\<lambda>p. map_of cd p \<noteq> None) ps"
    by blast
  show ?case
  proof (cases "map_of cd p")
    case None
    then show ?thesis using rows by simp
  next
    case (Some cur)
    then have "p \<in> fst ` set cd" by (force dest: map_of_SomeD)
    then have ord: "map_of (closest_order cd) p = Some (index_of (sorted_planets cd) p + 1)"
      using p by (simp add: map_of_closest_order)
    have avg: "avg_distance st p = Inr 0"
      using assms(1) by (simp add: avg_distance_def)
    show ?thesis using Some ord avg p rows by simp
  qed
qed

text \<open>
  Claim C5. Filling the table never raises ZeroDivisionError, whatever the state and the
  current distances: both divisions sit behind the test \<open>frame_count > 0\<close>. With a frame
  count of 0 the table is filled without any exception, with one row for each table
  planet that has a current distance, and every row reports average 0 and percentage 0.
\<close>

theorem update_table_zero_frames:
  "update_table st current_distances \<noteq> Inl ZeroDivisionError
   \<and> (frame_count st = 0 \<longrightarrow>
        (\<exists>rows. update_table st current_distances = Inr rows
           \<and> map row_average rows = replicate (length rows) 0
           \<and> map row_percentage rows = replicate (length rows) 0
           \<and> map row_planet rows =
               filter (\<lambda>p. map_of current_distances p \<noteq> None) table_planets))"
proof (intro conjI impI)
  show "update_table st current_distances \<noteq> Inl ZeroDivisionError"
    by (rule update_table_no_zero_division)
next
  assume z: "frame_count st = 0"
  let ?pct = "foldl (\<lambda>d (k, v). dict_set d k v) [] (map (\<lambda>p. (p, 0::real)) table_planets)"
  have "\<forall>p\<in>set table_planets. p \<noteq> ''Earth'' \<and> map_of ?pct p = Some 0"
    using Earth_notin_table_planets by (auto simp: map_of_dict_of_keys)
  from table_rows_zero_frames [OF z this, of current_distances 0]
  show "\<exists>rows. update_table st current_distances = Inr rows
           \<and> map row_average rows = replicate (length rows) 0
           \<and> map row_percentage rows = replicate (length rows) 0
           \<and> map row_planet rows =
               filter (\<lambda>p. map_of current_distances p \<noteq> None) table_planets"
    by (simp add: update_table_def closest_percentage_zero_frames [OF z])
qed


theorem update_table_zero_frames_witness:
  "frame_count module_globals = 0
   \<and> (\<exists>rows. update_table module_globals [(''Mercury'', 2), (''Venus'', 1)] = Inr rows
         \<and> map row_average rows = replicate (length rows) 0
         \<and> map row_percentage rows = replicate (length rows) 0
         \<and> map row_planet rows = [''Mercury'', ''Venus''])"
proof -
  have z: "frame_count module_globals = 0"
    by (simp add: module_globals_def)
  have f: "filter (\<lambda>p. map_of [(''Mercury'', 2 :: real), (''Venus'', 1)] p \<noteq> None)
             table_planets = [''Mercury'', ''Venus'']"
    by (simp add: table_planets_eq del: not_None_eq)
  from update_table_zero_frames [of module_globals "[(''Mercury'', 2), (''Venus'', 1)]"] z
  have "\<exists>rows. update_table module_globals [(''Mercury'', 2), (''Venus'', 1)] = Inr rows
         \<and> map row_average rows = replicate (length rows) 0
         \<and> map row_percentage rows = replicate (length rows) 0
         \<and> map row_planet rows =
             filter (\<lambda>p. map_of [(''Mercury'', 2 :: real), (''Venus'', 1)] p \<noteq> None)
               table_planets"
    by blast
  then show ?thesis using z unfolding f by blast
qed

section \<open>Facts about one frame\<close>

lemma argmin_scan_first_min:
  assumes "best_i < length pre" and "best = pre ! best_i"
    and "\<forall>j<length pre. best \<le> pre ! j" and "\<forall>j<best_i. best < pre ! j"
  shows "argmin_scan xs (length pre) best best_i < length (pre @ xs)
         \<and> (\<forall>j<length (pre @ xs).
               (pre @ xs) ! argmin_scan xs (length pre) best best_i \<le> (pre @ xs) ! j)
         \<and> (\<forall>j<argmin_scan xs (length pre) best best_i.
               (pre @ xs) ! argmin_scan xs (length pre) best best_i < (pre @ xs) ! j)"
  using assms
proof (induction xs arbitrary: pre best best_i)
  case Nil
  then show ?case by simp
next
  case (Cons x xs)
  show ?case
  proof (cases "x < best")
    case True
    have "argmin_scan xs (length (pre @ [x])) x (length pre) < length ((pre @ [x]) @ xs)
         \<and> (\<forall>j<length ((pre @ [x]) @ xs).
               ((pre @ [x]) @ xs) ! argmin_scan xs (length (pre @ [x])) x (length pre)
                 \<le> ((pre @ [x]) @ xs) ! j)
         \<and> (\<forall>j<argmin_scan xs (length (pre @ [x])) x (length pre).
               ((pre @ [x]) @ xs) ! argmin_scan xs (length (pre @ [x])) x (length pre)
                 < ((pre @ [x]) @ xs) ! j)"
    proof (rule Cons.IH)
      show "length pre < length (pre @ [x])" by simp
      show "x = (pre @ [x]) ! length pre" by simp
      show "\<forall>j<length (pre @ [x]). x \<le> (pre @ [x]) ! j"
        using True Cons.prems(3) by (auto simp: nth_append less_Suc_eq)
      show "\<forall>j<length pre. x < (pre @ [x]) ! j"
        using True Cons.prems(3) by (auto simp: nth_append)
    qed
    then show ?thesis using True by simp
  next
    case False
    have "argmin_scan xs (length (pre @ [x])) best best_i < length ((pre @ [x]) @ xs)
         \<and> (\<forall>j<length ((pre @ [x]) @ xs).
               ((pre @ [x]) @ xs) ! argmin_scan xs (length (pre @ [x])) best best_i
                 \<le> ((pre @ [x]) @ xs) ! j)
         \<and> (\<forall>j<argmin_scan xs (length (pre @ [x])) best best_i.
               ((pre @ [x]) @ xs) ! argmin_scan xs (length (pre @ [x])) best best_i
                 < ((pre @ [x]) @ xs) ! j)"
    proof (rule Cons.IH)
      show "best_i < length (pre @ [x])" using Cons.prems(1) by simp
      show "best = (pre @ [x]) ! best_i" using Cons.prems(1,2) by (simp add: nth_append)
      show "\<forall>j<length (pre @ [x]). best \<le> (pre @ [x]) ! j"
        using False Cons.prems(3) by (auto simp: nth_append less_Suc_eq)
      show "\<forall>j<best_i. best < (pre @ [x]) ! j"
        using Cons.prems(1,4) by (auto simp: nth_append)
    qed
    then show ?thesis using False by simp
  qed
qed

lemma argmin_first_min:
  assumes "argmin xs = Inr i"
  shows "i < length xs \<and> (\<forall>j<length xs. xs ! i \<le> xs ! j) \<and> (\<forall>j<i. xs ! i < xs ! j)"
proof (cases xs)
  case Nil
  with assms show ?thesis by (simp add: argmin_def)
next
  case (Cons x rest)
  with assms have i: "i = argmin_scan rest (length [x]) x 0" by (simp add: argmin_def)
  have "argmin_scan rest (length [x]) x 0 < length ([x] @ rest)
         \<and> (\<forall>j<length ([x] @ rest).
               ([x] @ rest) ! argmin_scan rest (length [x]) x 0 \<le> ([x] @ rest) ! j)
         \<and> (\<forall>j<argmin_scan rest (length [x]) x 0.
               ([x] @ rest) ! argmin_scan rest (length [x]) x 0 < ([x] @ rest) ! j)"
    by (rule argmin_scan_first_min) simp_all
  then show ?thesis using i Cons by simp
qed

lemma argmin_nonempty: "xs \<noteq> [] \<Longrightarrow> \<exists>i. argmin xs = Inr i"
  by (cases xs) (simp_all add: argmin_def)

lemma rint_mono: "x \<le> y \<Longrightarrow> rint x \<le> rint y"
proof -
  assume xy: "x \<le> y"
  have fl: "\<lfloor>x\<rfloor> \<le> \<lfloor>y\<rfloor>" using xy by (rule floor_mono)
  have lo: "\<lfloor>z\<rfloor> \<le> rint z" and hi: "rint z \<le> \<lfloor>z\<rfloor> + 1" for z
    by (simp_all add: rint_def Let_def)
  show ?thesis
  proof (cases "\<lfloor>x\<rfloor> = \<lfloor>y\<rfloor>")
    case True
    then have "x - of_int \<lfloor>x\<rfloor> \<le> y - of_int \<lfloor>y\<rfloor>" using xy by simp
    then show ?thesis using True by (auto simp: rint_def Let_def)
  next
    case False
    with fl have "\<lfloor>x\<rfloor> + 1 \<le> \<lfloor>y\<rfloor>" by simp
    with hi [of x] lo [of y] show ?thesis by linarith
  qed
qed

lemma round2_mono: "x \<le> y \<Longrightarrow> round2 x \<le> round2 y"
  using rint_mono [of "x * 100" "y * 100"] by (simp add: round2_def divide_right_mono)


lemma select_closest_Inr:
  assumes "select_closest ds = Inr p"
  shows "\<exists>i. argmin ds = Inr i \<and> i < length table_planets \<and> p = table_planets ! i"
  using assms by (auto simp: select_closest_def split: sum.splits if_splits)

lemma table_planet_nonempty: "p \<in> set table_planets \<Longrightarrow> p \<noteq> []"
  by (auto simp: table_planets_eq)

lemma sum_dict_set:
  fixes d :: "(string \<times> 'a::ab_group_add) list"
  shows "map_of d k = Some v \<Longrightarrow>
     sum_list (map snd (dict_set d k w)) = sum_list (map snd d) - v + w"
  by (induction d k w rule: dict_set.induct) (auto simp: algebra_simps)

lemma sum_dict_add:
  fixes d :: "(string \<times> 'a::ab_group_add) list"
  shows "dict_add d k x = Inr d' \<Longrightarrow> sum_list (map snd d') = sum_list (map snd d) + x"
  by (auto simp: dict_add_def sum_dict_set split: option.splits)

lemma map_of_dict_add:
  "dict_add d k x = Inr d' \<Longrightarrow>
     map_of d' = (map_of d)(k := map_option (\<lambda>s. s + x) (map_of d k))"
  by (auto simp: dict_add_def map_of_dict_set split: option.splits)

lemma map_of_add_distances:
  assumes "add_distances totals items = (totals', None)" and "distinct (map fst items)"
  shows "map_of totals' k =
           (case map_of items k of
              None \<Rightarrow> map_of totals k
            | Some v \<Rightarrow> map_option (\<lambda>s. s + v) (map_of totals k))"
  using assms
proof (induction items arbitrary: totals)
  case Nil
  then show ?case by simp
next
  case (Cons item items)
  obtain p v where item: "item = (p, v)" by (cases item)
  from Cons.prems(1) obtain mid where mid: "dict_add totals p v = Inr mid"
    and rest: "add_distances mid items = (totals', None)"
    by (auto simp: item split: sum.splits)
  from Cons.prems(2) have d: "distinct (map fst items)" and fresh: "p \<notin> fst ` set items"
    by (auto simp: item)
  from fresh have none: "map_of items p = None" by (simp add: map_of_eq_None_iff)
  note IH = Cons.IH [OF rest d]
  show ?case
  proof (cases "k = p")
    case True
    have "map_of mid p = map_option (\<lambda>s. s + v) (map_of totals p)"
      by (simp add: map_of_dict_add [OF mid])
    then show ?thesis using IH none True by (simp add: item split: option.splits)
  next
    case False
    then have "map_of mid k = map_of totals k"
      by (simp add: map_of_dict_add [OF mid])
    then show ?thesis using IH False by (simp add: item split: option.splits)
  qed
qed

lemma length_planet_positions:
  "planet_positions eph date ps = Inr vs \<Longrightarrow> length vs = length ps"
  by (induction ps arbitrary: vs) (auto split: option.splits sum.splits)

lemma length_geo_distances:
  "frame_geometry eph date = Inr geo \<Longrightarrow> length (geo_distances geo) = length table_planets"
  by (auto simp: frame_geometry_def length_planet_positions split: sum.splits)

lemma current_distances_zip:
  "length ds = length table_planets \<Longrightarrow>
     dict_of_items (zip table_planets (map round2 ds)) = zip table_planets (map round2 ds)"
  by (rule dict_of_items_distinct) (simp add: distinct_table_planets)

lemma update_Inr:
  assumes "update eph f st = (st', Inr out)"
  shows "\<exists>geo counts totals.
           f < length (dates st)
         \<and> frame_geometry eph (dates st ! f) = Inr geo
         \<and> select_closest (geo_distances geo) = Inr (out_closest out)
         \<and> out_distances out = zip table_planets (map round2 (geo_distances geo))
         \<and> add_distances (distance_sums st) (out_distances out) = (totals, None)
         \<and> dict_add (closest_counts st) (out_closest out) 1 = Inr counts
         \<and> st' = st\<lparr>frame_count := frame_count st + 1, distance_sums := totals,
                      closest_counts := counts\<rparr>
         \<and> update_table st' (out_distances out) = Inr (out_table out)
         \<and> out_earth out = geo_earth geo \<and> out_positions out = geo_planets geo"
proof -
  from assms have f: "f < length (dates st)"
    by (auto simp: update_def split: if_splits)
  let ?st1 = "st\<lparr>frame_count := frame_count st + 1\<rparr>"
  from assms f obtain geo where geo: "frame_geometry eph (dates st ! f) = Inr geo"
    by (auto simp: update_def Let_def split: sum.splits)
  from assms f geo obtain p where p: "select_closest (geo_distances geo) = Inr p"
    and acc: "accumulate ?st1 geo p = (st', Inr out)"
    by (auto simp: update_def Let_def split: sum.splits)
  let ?cd = "zip table_planets (map round2 (geo_distances geo))"
  have cd: "dict_of_items ?cd = ?cd"
    using length_geo_distances [OF geo] by (rule current_distances_zip)
  from acc obtain totals where tot: "add_distances (distance_sums st) ?cd = (totals, None)"
    and cc: "count_closest (?st1\<lparr>distance_sums := totals\<rparr>) geo ?cd p = (st', Inr out)"
    by (auto simp: accumulate_def Let_def cd split: prod.splits option.splits)
  from select_closest_Inr [OF p] have "p \<in> set table_planets" by auto
  then have ne: "p \<noteq> []" by (rule table_planet_nonempty)
  from cc ne obtain counts where cnt: "dict_add (closest_counts st) p 1 = Inr counts"
    and tab: "update_table (?st1\<lparr>distance_sums := totals, closest_counts := counts\<rparr>) ?cd
                = Inr (out_table out)"
    and st': "st' = ?st1\<lparr>distance_sums := totals, closest_counts := counts\<rparr>"
    and out: "out_closest out = p" "out_distances out = ?cd"
             "out_earth out = geo_earth geo" "out_positions out = geo_planets geo"
    by (auto simp: count_closest_def Let_def split: sum.splits)
  show ?thesis
    using f geo p tot cnt tab st' out by auto
qed

section \<open>The sample run\<close>

lemma norm2_axis: "norm2 (x, 0) = \<bar>x\<bar>"
  by (simp add: norm2_def)

lemma sample_geometry:
  "frame_geometry sample_ephemeris date =
     Inr \<lparr>geo_earth = (0, 0, 0),
          geo_planets = [(13 / 1000, 0), (11 / 1000, 0), (1, 0), (2, 0), (3, 0), (4, 0), (5, 0)],
          geo_distances = [13 / 1000, 11 / 1000, 1, 2, 3, 4, 5]\<rparr>"
  by (simp add: frame_geometry_def heliocentric_def sample_ephemeris_def table_planets_eq
        planet_map_def sub3_def sub2_def first2_def norm2_axis)

lemma sample_select: "select_closest [13 / 1000, 11 / 1000, 1, 2, 3, 4, 5] = Inr ''Venus''"
  by (simp add: select_closest_def argmin_def table_planets_eq)

lemma sample_round:
  "map round2 [13 / 1000, 11 / 1000, 1, 2, 3, 4, 5] = [1 / 100, 1 / 100, 1, 2, 3, 4, 5]"
  by (simp add: round2_def rint_def)

lemma reset_sample_state: "reset sample_state = sample_after 0"
  by (simp add: reset_def sample_after_def sample_state_def module_globals_def planets_eq)

lemma sample_frame_0: "update sample_ephemeris 0 (sample_after 0) = (sample_after 1, Inr sample_output)"
  by (simp add: update_def sample_geometry sample_select sample_after_def sample_state_def
        module_globals_def accumulate_def sample_round table_planets_eq
        dict_of_items_def dict_add_def Let_def count_closest_def update_table_def
        percentage_of_def py_div_def round2_def rint_def avg_distance_def closest_order_def
        sorted_planets_def sample_output_def)

lemma sample_frame_1: "update sample_ephemeris (Suc 0) (sample_after 1) = (sample_after 2, Inr sample_output)"
  by (simp add: update_def sample_geometry sample_select sample_after_def sample_state_def
        module_globals_def accumulate_def sample_round table_planets_eq
        dict_of_items_def dict_add_def Let_def count_closest_def update_table_def
        percentage_of_def py_div_def round2_def rint_def avg_distance_def closest_order_def
        sorted_planets_def sample_output_def)

lemma sample_run:
  "run_frames sample_ephemeris [0, 1] (reset sample_state) =
     (sample_after 2, Inr [sample_output, sample_output])"
  by (simp add: reset_sample_state sample_frame_0 sample_frame_1)

section \<open>The invariant of the closest counts\<close>

lemma update_counts:
  assumes "update eph f st = (st', Inr out)"
  shows "frame_count st' = frame_count st + 1
       \<and> dates st' = dates st
       \<and> out_closest out \<in> set table_planets
       \<and> (\<exists>c. map_of (closest_counts st) (out_closest out) = Some c
              \<and> closest_counts st' = dict_set (closest_counts st) (out_closest out) (c + 1))
       \<and> sum_list (map snd (closest_counts st')) = sum_list (map snd (closest_counts st)) + 1"
proof -
  from update_Inr [OF assms] obtain geo :: geometry and counts totals where
    sel: "select_closest (geo_distances geo) = Inr (out_closest out)"
    and cnt: "dict_add (closest_counts st) (out_closest out) 1 = Inr counts"
    and st': "st' = st\<lparr>frame_count := frame_count st + 1, distance_sums := totals,
                       closest_counts := counts\<rparr>"
    by blast
  from select_closest_Inr [OF sel] have mem: "out_closest out \<in> set table_planets" by auto
  from cnt obtain c where c: "map_of (closest_counts st) (out_closest out) = Some c"
    and counts: "counts = dict_set (closest_counts st) (out_closest out) (c + 1)"
    by (auto simp: dict_add_def split: option.splits)
  from sum_dict_add [OF cnt] have "sum_list (map snd counts) = sum_list (map snd (closest_counts st)) + 1" .
  then show ?thesis using st' mem c counts by simp
qed

lemma run_frames_counts:
  "run_frames eph fs st = (st', Inr outs) \<Longrightarrow>
     frame_count st' = frame_count st + int (length fs)
   \<and> sum_list (map snd (closest_counts st')) =
       sum_list (map snd (closest_counts st)) + int (length fs)
   \<and> length outs = length fs
   \<and> dates st' = dates st"
proof (induction fs arbitrary: st outs)
  case Nil
  then show ?case by simp
next
  case (Cons f fs)
  from Cons.prems obtain st1 out outs' where
    step: "update eph f st = (st1, Inr out)"
    and rest: "run_frames eph fs st1 = (st', Inr outs')"
    and outs: "outs = out # outs'"
    by (auto split: prod.splits sum.splits)
  from update_counts [OF step] Cons.IH [OF rest] outs show ?case by simp
qed

text \<open>
  Claim C3. After a reset and any playback whose frames were all processed without an
  exception, the closest counts add up to the frame count, which is the number of frames
  played. Each processed frame adds 1 to the frame count and 1 to the count of exactly
  one planet, a planet other than the Earth.
\<close>

theorem closest_counts_sum_invariant:
  "(run_frames eph fs (reset st) = (st', Inr outs) \<longrightarrow>
      sum_list (map snd (closest_counts st')) = frame_count st'
      \<and> frame_count st' = int (length fs))
   \<and> (update eph f st1 = (st2, Inr out) \<longrightarrow>
        frame_count st2 = frame_count st1 + 1
        \<and> out_closest out \<in> set table_planets
        \<and> (\<exists>c. map_of (closest_counts st1) (out_closest out) = Some c
               \<and> closest_counts st2 = dict_set (closest_counts st1) (out_closest out) (c + 1))
        \<and> sum_list (map snd (closest_counts st2)) = sum_list (map snd (closest_counts st1)) + 1)"
proof (intro conjI impI)
  assume run: "run_frames eph fs (reset st) = (st', Inr outs)"
  have z: "sum_list (map snd (closest_counts (reset st))) = 0" "frame_count (reset st) = 0"
    by (simp_all add: reset_def comp_def)
  from run_frames_counts [OF run] z
  show "sum_list (map snd (closest_counts st')) = frame_count st'"
    and "frame_count st' = int (length fs)" by simp_all
next
  assume "update eph f st1 = (st2, Inr out)"
  from update_counts [OF this]
  show "frame_count st2 = frame_count st1 + 1"
    and "out_closest out \<in> set table_planets"
    and "\<exists>c. map_of (closest_counts st1) (out_closest out) = Some c
               \<and> closest_counts st2 = dict_set (closest_counts st1) (out_closest out) (c + 1)"
    and "sum_list (map snd (closest_counts st2)) = sum_list (map snd (closest_counts st1)) + 1"
    by simp_all
qed

theorem closest_counts_sum_invariant_witness:
  "run_frames sample_ephemeris [0, 1] (reset sample_state) =
     (sample_after 2, Inr [sample_output, sample_output])
   \<and> sum_list (map snd (closest_counts (sample_after 2))) = frame_count (sample_after 2)
   \<and> frame_count (sample_after 2) = 2
   \<and> update sample_ephemeris 0 (sample_after 0) = (sample_after 1, Inr sample_output)
   \<and> frame_count (sample_after 1) = frame_count (sample_after 0) + 1
   \<and> out_closest sample_output \<in> set table_planets
   \<and> sum_list (map snd (closest_counts (sample_after 1))) =
       sum_list (map snd (closest_counts (sample_after 0))) + 1"
  using closest_counts_sum_invariant [of sample_ephemeris "[0, 1]" sample_state "sample_after 2"
      "[sample_output, sample_output]" 0 "sample_after 0" "sample_after 1" sample_output]
    sample_run sample_frame_0
  by simp

section \<open>The running sums and the average distance\<close>

lemma update_sums:
  assumes "update eph f st = (st', Inr out)"
  shows "(\<exists>geo. frame_geometry eph (dates st ! f) = Inr geo
            \<and> out_distances out = zip table_planets (map round2 (geo_distances geo)))
       \<and> map fst (out_distances out) = table_planets
       \<and> (\<forall>k. map_of (distance_sums st') k =
               (case map_of (out_distances out) k of
                  None \<Rightarrow> map_of (distance_sums st) k
                | Some v \<Rightarrow> map_option (\<lambda>s. s + v) (map_of (distance_sums st) k)))"
proof -
  from update_Inr [OF assms] obtain geo :: geometry and counts totals where
    geo: "frame_geometry eph (dates st ! f) = Inr geo"
    and cd: "out_distances out = zip table_planets (map round2 (geo_distances geo))"
    and tot: "add_distances (distance_sums st) (out_distances out) = (totals, None)"
    and st': "st' = st\<lparr>frame_count := frame_count st + 1, distance_sums := totals,
                       closest_counts := counts\<rparr>"
    by blast
  have keys: "map fst (out_distances out) = table_planets"
    using length_geo_distances [OF geo] by (simp add: cd)
  then have "distinct (map fst (out_distances out))"
    by (simp add: distinct_table_planets)
  from map_of_add_distances [OF tot this] st' geo cd keys show ?thesis by auto
qed

lemma run_frames_sums:
  assumes "run_frames eph fs st = (st', Inr outs)" and "b \<in> set table_planets"
  shows "\<exists>ds. map (\<lambda>out. map_of (out_distances out) b) outs = map Some ds
            \<and> map_of (distance_sums st') b =
                map_option (\<lambda>s. s + sum_list ds) (map_of (distance_sums st) b)"
  using assms(1)
proof (induction fs arbitrary: st outs)
  case Nil
  then have "outs = []" "st' = st" by simp_all
  then show ?case by (simp add: option.map_ident)
next
  case (Cons f fs)
  from Cons.prems obtain st1 out outs' where
    step: "update eph f st = (st1, Inr out)"
    and rest: "run_frames eph fs st1 = (st', Inr outs')"
    and outs: "outs = out # outs'"
    by (auto split: prod.splits sum.splits)
  from Cons.IH [OF rest] obtain ds where
    ds: "map (\<lambda>out. map_of (out_distances out) b) outs' = map Some ds"
    and sum: "map_of (distance_sums st') b =
                map_option (\<lambda>s. s + sum_list ds) (map_of (distance_sums st1) b)"
    by blast
  from update_sums [OF step] have keys: "map fst (out_distances out) = table_planets"
    and upd: "map_of (distance_sums st1) b =
               (case map_of (out_distances out) b of
                  None \<Rightarrow> map_of (distance_sums st) b
                | Some v \<Rightarrow> map_option (\<lambda>s. s + v) (map_of (distance_sums st) b))"
    by blast+
  from keys assms(2) have "b \<in> fst ` set (out_distances out)"
    by (metis set_map)
  then obtain v where v: "map_of (out_distances out) b = Some v"
    by (cases "map_of (out_distances out) b") (auto simp: map_of_eq_None_iff)
  have "map (\<lambda>out. map_of (out_distances out) b) outs = map Some (v # ds)"
    using ds v outs by simp
  moreover have "map_of (distance_sums st') b =
                   map_option (\<lambda>s. s + sum_list (v # ds)) (map_of (distance_sums st) b)"
    using sum upd v by (simp add: option.map_comp comp_def add.assoc)
  ultimately show ?case by blast
qed

lemma run_frames_distances:
  "run_frames eph fs st = (st', Inr outs) \<Longrightarrow>
     list_all2
       (\<lambda>f out. \<exists>geo. frame_geometry eph (dates st ! f) = Inr geo
                  \<and> out_distances out = zip table_planets (map round2 (geo_distances geo)))
       fs outs"
proof (induction fs arbitrary: st outs)
  case Nil
  then show ?case by simp
next
  case (Cons f fs)
  from Cons.prems obtain st1 out outs' where
    step: "update eph f st = (st1, Inr out)"
    and rest: "run_frames eph fs st1 = (st', Inr outs')"
    and outs: "outs = out # outs'"
    by (auto split: prod.splits sum.splits)
  from update_counts [OF step] have "dates st1 = dates st" by simp
  with Cons.IH [OF rest] update_sums [OF step] outs show ?case by simp
qed

lemma run_frames_sums_absent:
  assumes "run_frames eph fs st = (st', Inr outs)" and "k \<notin> set table_planets"
  shows "map_of (distance_sums st') k = map_of (distance_sums st) k
       \<and> map (\<lambda>out. map_of (out_distances out) k) outs = replicate (length outs) None"
  using assms(1)
proof (induction fs arbitrary: st outs)
  case Nil
  then show ?case by auto
next
  case (Cons f fs)
  from Cons.prems obtain st1 out outs' where
    step: "update eph f st = (st1, Inr out)"
    and rest: "run_frames eph fs st1 = (st', Inr outs')"
    and outs: "outs = out # outs'"
    by (auto split: prod.splits sum.splits)
  from update_sums [OF step] have keys: "map fst (out_distances out) = table_planets"
    and upd: "map_of (distance_sums st1) k =
               (case map_of (out_distances out) k of
                  None \<Rightarrow> map_of (distance_sums st) k
                | Some v \<Rightarrow> map_option (\<lambda>s. s + v) (map_of (distance_sums st) k))"
    by blast+
  from keys assms(2) have "k \<notin> fst ` set (out_distances out)"
    by (metis set_map)
  then have none: "map_of (out_distances out) k = None"
    by (simp add: map_of_eq_None_iff)
  from Cons.IH [OF rest] upd none outs show ?case by simp
qed

text \<open>
  Claim C8. After a reset and a playback of at least one frame, all processed without
  an exception, the average distance that the table computes for a planet other than
  the Earth is the arithmetic mean of the distances that the frames reported for that
  planet, and each reported distance is the planar Earth-planet distance of its frame
  rounded to two decimals. No frame reports a distance for the Earth itself: its sum
  stays 0 and so does its average.
\<close>

theorem average_is_mean:
  assumes "run_frames eph fs (reset st) = (st', Inr outs)"
    and "fs \<noteq> []" and "b \<in> set table_planets"
  shows "(\<exists>ds. map (\<lambda>out. map_of (out_distances out) b) outs = map Some ds
            \<and> length ds = length fs
            \<and> frame_count st' = int (length fs)
            \<and> map_of (distance_sums st') b = Some (sum_list ds)
            \<and> avg_distance st' b = Inr (sum_list ds / real (length ds)))
       \<and> list_all2
            (\<lambda>f out. \<exists>geo. frame_geometry eph (dates st ! f) = Inr geo
               \<and> out_distances out = zip table_planets (map round2 (geo_distances geo)))
            fs outs
       \<and> map (\<lambda>out. map_of (out_distances out) ''Earth'') outs = replicate (length outs) None
       \<and> map_of (distance_sums st') ''Earth'' = Some 0
       \<and> avg_distance st' ''Earth'' = Inr 0"
proof -
  from run_frames_sums [OF assms(1,3)] obtain ds where
    ds: "map (\<lambda>out. map_of (out_distances out) b) outs = map Some ds"
    and sum: "map_of (distance_sums st') b =
                map_option (\<lambda>s. s + sum_list ds) (map_of (distance_sums (reset st)) b)"
    by blast
  from run_frames_counts [OF assms(1)] have fc: "frame_count st' = int (length fs)"
    and len: "length outs = length fs"
    by (simp_all add: reset_def)
  from ds have "length outs = length ds" by (metis length_map)
  with len have lds: "length ds = length fs" by simp
  from assms(3) table_planets_subset have "b \<in> set planets" by blast
  then have "map_of (distance_sums (reset st)) b = Some 0"
    by (simp add: reset_def map_of_map_restrict)
  with sum have total: "map_of (distance_sums st') b = Some (sum_list ds)" by simp
  from assms(2) fc have pos: "0 < frame_count st'" by (cases fs) simp_all
  have avg: "avg_distance st' b = Inr (sum_list ds / real (length ds))"
    using pos total fc lds by (simp add: avg_distance_def py_div_def)
  from run_frames_distances [OF assms(1)] have geo:
    "list_all2
       (\<lambda>f out. \<exists>geo. frame_geometry eph (dates st ! f) = Inr geo
          \<and> out_distances out = zip table_planets (map round2 (geo_distances geo)))
       fs outs"
    by (simp add: reset_def)
  have "map_of (distance_sums (reset st)) ''Earth'' = Some 0"
    by (simp add: reset_def planets_eq)
  with run_frames_sums_absent [OF assms(1) Earth_notin_table_planets]
  have earth: "map (\<lambda>out. map_of (out_distances out) ''Earth'') outs
                 = replicate (length outs) None"
    and esum: "map_of (distance_sums st') ''Earth'' = Some 0"
    by simp_all
  have eavg: "avg_distance st' ''Earth'' = Inr 0"
    using pos esum fc by (simp add: avg_distance_def py_div_def)
  from ds lds fc total avg have
    "\<exists>ds. map (\<lambda>out. map_of (out_distances out) b) outs = map Some ds
            \<and> length ds = length fs
            \<and> frame_count st' = int (length fs)
            \<and> map_of (distance_sums st') b = Some (sum_list ds)
            \<and> avg_distance st' b = Inr (sum_list ds / real (length ds))"
    by blast
  with geo earth esum eavg show ?thesis by blast
qed

theorem average_is_mean_witness:
  "run_frames sample_ephemeris [0, 1] (reset sample_state) =
     (sample_after 2, Inr [sample_output, sample_output])
   \<and> [0, 1 :: nat] \<noteq> [] \<and> ''Mars'' \<in> set table_planets
   \<and> (\<exists>ds. map (\<lambda>out. map_of (out_distances out) ''Mars'') [sample_output, sample_output]
              = map Some ds
            \<and> length ds = length [0, 1 :: nat]
            \<and> frame_count (sample_after 2) = int (length [0, 1 :: nat])
            \<and> map_of (distance_sums (sample_after 2)) ''Mars'' = Some (sum_list ds)
            \<and> avg_distance (sample_after 2) ''Mars'' = Inr (sum_list ds / real (length ds)))
   \<and> avg_distance (sample_after 2) ''Earth'' = Inr 0"
proof -
  have b: "''Mars'' \<in> set table_planets" by (simp add: table_planets_eq)
  have ne: "[0, 1 :: nat] \<noteq> []" by simp
  from average_is_mean [OF sample_run ne b] show ?thesis
    using sample_run b by blast
qed

section \<open>The rank order of the table\<close>

lemma table_rows_sound:
  "table_rows st cd order pct i ps = Inr rows \<Longrightarrow>
     \<forall>r\<in>set rows. map_of cd (row_planet r) = Some (row_current r)
                  \<and> map_of order (row_planet r) = Some (row_rank r)"
proof (induction ps arbitrary: i rows)
  case Nil
  then show ?case by simp
next
  case (Cons p ps)
  show ?case
  proof (cases "map_of cd p")
    case None
    with Cons.prems have "table_rows st cd order pct (Suc i) ps = Inr rows" by simp
    from Cons.IH [OF this] show ?thesis .
  next
    case (Some cur)
    with Cons.prems obtain avg rank pc rows' where
      rank: "map_of order p = Some rank"
      and rest: "table_rows st cd order pct (Suc i) ps = Inr rows'"
      and rows: "rows = \<lparr>row_index = i + 1, row_planet = p, row_current = cur,
                         row_average = avg, row_rank = rank, row_percentage = pc\<rparr> # rows'"
      by (auto split: sum.splits option.splits)
    from Cons.IH [OF rest] Some rank rows show ?thesis by simp
  qed
qed

lemma index_of_sorted_less:
  assumes "distinct (map fst L)" and "sorted (map snd L)"
    and "(p, v) \<in> set L" and "(q, w) \<in> set L" and "v < (w::real)"
  shows "index_of (map fst L) p < index_of (map fst L) q"
  using assms
proof (induction L)
  case Nil
  then show ?case by simp
next
  case (Cons a L)
  obtain k u where a: "a = (k, u)" by (cases a)
  from Cons.prems(1) have dL: "distinct (map fst L)" and fresh: "k \<notin> fst ` set L"
    by (simp_all add: a)
  from Cons.prems(2) have sL: "sorted (map snd L)" and low: "\<forall>x\<in>set L. u \<le> snd x"
    by (simp_all add: a)
  show ?case
  proof (cases "k = p")
    case True
    with fresh Cons.prems(3) have "v = u" by (force simp: a)
    with Cons.prems(5) have "(q, w) \<noteq> (k, u)" by auto
    with Cons.prems(4) have "(q, w) \<in> set L" by (auto simp: a)
    with fresh have "q \<noteq> k" by force
    with True show ?thesis by (simp add: a)
  next
    case False
    with Cons.prems(3) have pL: "(p, v) \<in> set L" by (simp add: a)
    show ?thesis
    proof (cases "k = q")
      case True
      with fresh Cons.prems(4) have "w = u" by (force simp: a)
      with low pL have "w \<le> v" by force
      with Cons.prems(5) show ?thesis by simp
    next
      case kq: False
      with Cons.prems(4) have "(q, w) \<in> set L" by (simp add: a)
      from Cons.IH [OF dL sL pL this Cons.prems(5)] False kq show ?thesis by (simp add: a)
    qed
  qed
qed

lemma distinct_keys_insort_key:
  "distinct (map fst (insort_key snd x xs)) =
     (fst x \<notin> fst ` set xs \<and> distinct (map fst xs))"
  by (induction xs) (auto simp: set_insort_key)

lemma distinct_keys_sort_key:
  "distinct (map fst xs) \<Longrightarrow> distinct (map fst (sort_key snd xs))"
  by (induction xs) (simp_all add: sort_key_simps distinct_keys_insort_key)

lemma rank_follows_rounded:
  assumes "update_table st cd = Inr rows" and "distinct (map fst cd)"
    and "r1 \<in> set rows" and "r2 \<in> set rows" and "row_current r1 < row_current r2"
  shows "row_rank r1 < row_rank r2"
proof -
  let ?L = "sort_key snd (filter (\<lambda>(p, v). p \<noteq> ''Earth'') cd)"
  from assms(1) obtain pct where
    "table_rows st cd (closest_order cd) pct 0 table_planets = Inr rows"
    by (auto simp: update_table_def Let_def split: sum.splits)
  from table_rows_sound [OF this] assms(3,4) have
    c1: "map_of cd (row_planet r1) = Some (row_current r1)"
    and o1: "map_of (closest_order cd) (row_planet r1) = Some (row_rank r1)"
    and c2: "map_of cd (row_planet r2) = Some (row_current r2)"
    and o2: "map_of (closest_order cd) (row_planet r2) = Some (row_rank r2)"
    by blast+
  from o1 have e1: "row_planet r1 \<noteq> ''Earth''"
    and k1: "row_rank r1 = index_of (sorted_planets cd) (row_planet r1) + 1"
    by (auto simp: map_of_closest_order split: if_splits)
  from o2 have e2: "row_planet r2 \<noteq> ''Earth''"
    and k2: "row_rank r2 = index_of (sorted_planets cd) (row_planet r2) + 1"
    by (auto simp: map_of_closest_order split: if_splits)
  have dL: "distinct (map fst ?L)"
    by (rule distinct_keys_sort_key) (simp add: assms(2) distinct_map_filter)
  have sL: "sorted (map snd ?L)" by (rule sorted_sort_key)
  from c1 e1 have m1: "(row_planet r1, row_current r1) \<in> set ?L"
    by (auto dest: map_of_SomeD)
  from c2 e2 have m2: "(row_planet r2, row_current r2) \<in> set ?L"
    by (auto dest: map_of_SomeD)
  from index_of_sorted_less [OF dL sL m1 m2 assms(5)] k1 k2 show ?thesis
    by (simp add: sorted_planets_def)
qed

lemma index_of_insort_keeps_order:
  assumes "fst a \<notin> fst ` set S" and "k' \<in> fst ` set S"
    and "index_of (map fst S) k < index_of (map fst S) k'"
  shows "index_of (map fst (insort_key snd a S)) k
           < index_of (map fst (insort_key snd a S)) k'"
  using assms
proof (induction S)
  case Nil
  then show ?case by simp
next
  case (Cons y S)
  from Cons.prems(1) have fresh: "fst a \<notin> fst ` set S" and ay: "fst a \<noteq> fst y" by auto
  from Cons.prems(1,2) have ak': "fst a \<noteq> k'" by auto
  from Cons.prems(3) have k': "fst y \<noteq> k'" by (auto split: if_splits)
  with Cons.prems(2) have k'S: "k' \<in> fst ` set S" by auto
  show ?case
  proof (cases "snd a \<le> snd y")
    case True
    then show ?thesis using Cons.prems(3) ay ak' k' by (auto split: if_splits)
  next
    case False
    show ?thesis
    proof (cases "fst y = k")
      case True
      then show ?thesis using False k' by simp
    next
      case ky: False
      with Cons.prems(3) k' have "index_of (map fst S) k < index_of (map fst S) k'" by simp
      from Cons.IH [OF fresh k'S this] show ?thesis using False ky k' by simp
    qed
  qed
qed

lemma index_of_insort_new_first:
  assumes "x \<in> set S" and "snd a \<le> snd x" and "fst a \<noteq> fst x"
    and "distinct (map fst S)"
  shows "index_of (map fst (insort_key snd a S)) (fst a)
           < index_of (map fst (insort_key snd a S)) (fst x)"
  using assms
proof (induction S)
  case Nil
  then show ?case by simp
next
  case (Cons y S)
  from Cons.prems(4) have dS: "distinct (map fst S)" and yS: "fst y \<notin> fst ` set S" by simp_all
  show ?case
  proof (cases "snd a \<le> snd y")
    case True
    then show ?thesis using Cons.prems(3) by simp
  next
    case False
    with Cons.prems(1,2) have xS: "x \<in> set S" by auto
    with yS have yx: "fst y \<noteq> fst x" by force
    from Cons.IH [OF xS Cons.prems(2,3) dS] show ?thesis using False yx by simp
  qed
qed

lemma keys_sort_key: "fst ` set (sort_key snd xs) = fst ` set xs"
  by simp

lemma index_of_sort_key_ties:
  assumes "distinct (map fst xs)" and "(p, v) \<in> set xs" and "(q, v) \<in> set xs"
    and "index_of (map fst xs) p < index_of (map fst xs) q"
  shows "index_of (map fst (sort_key snd xs)) p < index_of (map fst (sort_key snd xs)) q"
  using assms
proof (induction xs)
  case Nil
  then show ?case by simp
next
  case (Cons a xs)
  from Cons.prems(1) have d: "distinct (map fst xs)" and fresh: "fst a \<notin> fst ` set xs"
    by simp_all
  have fresh': "fst a \<notin> fst ` set (sort_key snd xs)" using fresh by simp
  have dS: "distinct (map fst (sort_key snd xs))" using d by (rule distinct_keys_sort_key)
  from Cons.prems(4) have qa: "fst a \<noteq> q" by (auto split: if_splits)
  with Cons.prems(3) have q: "(q, v) \<in> set xs" by auto
  show ?case
  proof (cases "fst a = p")
    case True
    have a: "a = (p, v)"
    proof (rule ccontr)
      assume "a \<noteq> (p, v)"
      with Cons.prems(2) have "(p, v) \<in> set xs" by simp
      then have "p \<in> fst ` set xs" by force
      with fresh True show False by simp
    qed
    have "(q, v) \<in> set (sort_key snd xs)" using q by simp
    from index_of_insort_new_first [OF this _ _ dS, of a] a qa show ?thesis
      by (simp add: sort_key_simps)
  next
    case False
    with Cons.prems(2) have p: "(p, v) \<in> set xs" by auto
    from Cons.prems(4) False qa have "index_of (map fst xs) p < index_of (map fst xs) q"
      by simp
    from Cons.IH [OF d p q this] have
      "index_of (map fst (sort_key snd xs)) p < index_of (map fst (sort_key snd xs)) q" .
    moreover have "q \<in> fst ` set (sort_key snd xs)" using q by force
    ultimately show ?thesis
      using index_of_insort_keeps_order [OF fresh'] by (simp add: sort_key_simps)
  qed
qed

lemma table_rows_index:
  "table_rows st cd order pct i ps = Inr rows \<Longrightarrow> distinct ps \<Longrightarrow>
     \<forall>r\<in>set rows. row_planet r \<in> set ps
                  \<and> row_index r = i + index_of ps (row_planet r) + 1"
proof (induction ps arbitrary: i rows)
  case Nil
  then show ?case by simp
next
  case (Cons p ps)
  from Cons.prems(2) have d: "distinct ps" and fresh: "p \<notin> set ps" by simp_all
  show ?case
  proof (cases "map_of cd p")
    case None
    with Cons.prems(1) have "table_rows st cd order pct (Suc i) ps = Inr rows" by simp
    from Cons.IH [OF this d] fresh show ?thesis by auto
  next
    case (Some cur)
    with Cons.prems(1) obtain avg rank pc rows' where
      rest: "table_rows st cd order pct (Suc i) ps = Inr rows'"
      and rows: "rows = \<lparr>row_index = i + 1, row_planet = p, row_current = cur,
                         row_average = avg, row_rank = rank, row_percentage = pc\<rparr> # rows'"
      by (auto split: sum.splits option.splits)
    from Cons.IH [OF rest d] fresh rows show ?thesis by auto
  qed
qed

lemma table_rows_planets:
  "table_rows st cd order pct i ps = Inr rows \<Longrightarrow>
     map row_planet rows = filter (\<lambda>p. map_of cd p \<noteq> None) ps"
proof (induction ps arbitrary: i rows)
  case Nil
  then show ?case by simp
next
  case (Cons p ps)
  show ?case
  proof (cases "map_of cd p")
    case None
    with Cons.prems have "table_rows st cd order pct (Suc i) ps = Inr rows" by simp
    from Cons.IH [OF this] None show ?thesis by simp
  next
    case (Some cur)
    with Cons.prems obtain avg rank pc rows' where
      rest: "table_rows st cd order pct (Suc i) ps = Inr rows'"
      and rows: "rows = \<lparr>row_index = i + 1, row_planet = p, row_current = cur,
                         row_average = avg, row_rank = rank, row_percentage = pc\<rparr> # rows'"
      by (auto split: sum.splits option.splits)
    from Cons.IH [OF rest] Some rows show ?thesis by simp
  qed
qed

section \<open>The closest planet and the rounded distances\<close>

lemma sorted_planets_no_Earth:
  assumes "''Earth'' \<notin> fst ` set cd"
  shows "sorted_planets cd = map fst (sort_key snd cd)"
proof -
  from assms have "filter (\<lambda>(p, v). p \<noteq> ''Earth'') cd = cd"
    by (intro filter_True) force
  then show ?thesis by (simp add: sorted_planets_def)
qed

lemma update_table_rows:
  assumes "update_table st cd = Inr rows" and "map fst cd = table_planets"
  shows "map row_planet rows = table_planets
       \<and> (\<forall>r\<in>set rows.
             row_index r = index_of table_planets (row_planet r) + 1
           \<and> map_of cd (row_planet r) = Some (row_current r)
           \<and> row_rank r = index_of (map fst (sort_key snd cd)) (row_planet r) + 1)
       \<and> (\<forall>r1\<in>set rows. \<forall>r2\<in>set rows.
             row_current r1 < row_current r2
             \<or> (row_current r1 = row_current r2 \<and> row_index r1 < row_index r2)
             \<longrightarrow> row_rank r1 < row_rank r2)"
proof -
  from assms(2) have keys: "fst ` set cd = set table_planets" by (metis set_map)
  from assms(2) have d: "distinct (map fst cd)" by (simp add: distinct_table_planets)
  from keys Earth_notin_table_planets have noE: "''Earth'' \<notin> fst ` set cd" by simp
  note sp = sorted_planets_no_Earth [OF noE]
  from assms(1) obtain pct where
    tr: "table_rows st cd (closest_order cd) pct 0 table_planets = Inr rows"
    by (auto simp: update_table_def Let_def split: sum.splits)
  have all: "filter (\<lambda>p. map_of cd p \<noteq> None) table_planets = table_planets"
    using keys by (intro filter_True) (simp add: map_of_eq_None_iff)
  from table_rows_planets [OF tr] all have planets: "map row_planet rows = table_planets"
    by simp
  from table_rows_index [OF tr distinct_table_planets] have idx:
    "\<forall>r\<in>set rows. row_index r = index_of table_planets (row_planet r) + 1"
    by simp
  from table_rows_sound [OF tr] have cur:
    "\<forall>r\<in>set rows. map_of cd (row_planet r) = Some (row_current r)"
    and ord: "\<forall>r\<in>set rows. map_of (closest_order cd) (row_planet r) = Some (row_rank r)"
    by blast+
  have rank: "\<forall>r\<in>set rows.
                row_rank r = index_of (map fst (sort_key snd cd)) (row_planet r) + 1"
  proof
    fix r assume "r \<in> set rows"
    with ord have "map_of (closest_order cd) (row_planet r) = Some (row_rank r)" by blast
    then show "row_rank r = index_of (map fst (sort_key snd cd)) (row_planet r) + 1"
      by (auto simp: map_of_closest_order sp split: if_splits)
  qed
  have less: "row_rank r1 < row_rank r2"
    if r1: "r1 \<in> set rows" and r2: "r2 \<in> set rows"
      and c: "row_current r1 < row_current r2
              \<or> (row_current r1 = row_current r2 \<and> row_index r1 < row_index r2)"
    for r1 r2
  proof (cases "row_current r1 < row_current r2")
    case True
    from rank_follows_rounded [OF assms(1) d r1 r2 True] show ?thesis .
  next
    case False
    with c have eq: "row_current r1 = row_current r2" and lt: "row_index r1 < row_index r2"
      by simp_all
    from cur r1 have m1: "(row_planet r1, row_current r2) \<in> set cd"
      by (auto simp: eq [symmetric] dest: map_of_SomeD)
    from cur r2 have m2: "(row_planet r2, row_current r2) \<in> set cd"
      by (auto dest: map_of_SomeD)
    from idx r1 r2 lt have
      "index_of (map fst cd) (row_planet r1) < index_of (map fst cd) (row_planet r2)"
      by (simp add: assms(2))
    from index_of_sort_key_ties [OF d m1 m2 this] rank r1 r2 show ?thesis by simp
  qed
  from planets idx cur rank less show ?thesis by blast
qed

text \<open>
  Claim C1, as the code has it. In a frame processed without an exception the planet
  whose closest count is incremented is the first planet, in the order of the planet
  list, whose unrounded planar distance to the Earth is minimal among the planets other
  than the Earth; rounding being monotone, its rounded distance is minimal among the
  rounded distances as well. The distances are rounded to two decimals after the
  selection, and the rounded values are what is used from then on: they are the
  distances the frame reports, each is added to the running sum of its planet (no other
  sum changes), and the table has one row per planet whose rank is the planet's position
  in the stable sort of the rounded values, so a row with a smaller rounded distance, or
  with an equal one and an earlier place in the planet list, has the smaller rank.
\<close>

theorem closest_is_first_raw_minimum:
  assumes "update eph f st = (st', Inr out)"
  shows "\<exists>geo i. frame_geometry eph (dates st ! f) = Inr geo
           \<and> length (geo_distances geo) = length table_planets
           \<and> i < length table_planets
           \<and> out_closest out = table_planets ! i
           \<and> (\<forall>j<length table_planets. geo_distances geo ! i \<le> geo_distances geo ! j)
           \<and> (\<forall>j<i. geo_distances geo ! i < geo_distances geo ! j)
           \<and> (\<exists>c. map_of (closest_counts st) (table_planets ! i) = Some c
                  \<and> closest_counts st' =
                      dict_set (closest_counts st) (table_planets ! i) (c + 1))
           \<and> out_distances out = zip table_planets (map round2 (geo_distances geo))
           \<and> (\<forall>j<length table_planets.
                 round2 (geo_distances geo ! i) \<le> round2 (geo_distances geo ! j))
           \<and> (\<forall>k. map_of (distance_sums st') k =
                 (case map_of (zip table_planets (map round2 (geo_distances geo))) k of
                    None \<Rightarrow> map_of (distance_sums st) k
                  | Some v \<Rightarrow> map_option (\<lambda>s. s + v) (map_of (distance_sums st) k)))
           \<and> map row_planet (out_table out) = table_planets
           \<and> (\<forall>r\<in>set (out_table out).
                 row_index r = index_of table_planets (row_planet r) + 1
               \<and> map_of (zip table_planets (map round2 (geo_distances geo))) (row_planet r)
                   = Some (row_current r)
               \<and> row_rank r =
                   index_of
                     (map fst (sort_key snd (zip table_planets (map round2 (geo_distances geo)))))
                     (row_planet r) + 1)
           \<and> (\<forall>r1\<in>set (out_table out). \<forall>r2\<in>set (out_table out).
                 row_current r1 < row_current r2
                 \<or> (row_current r1 = row_current r2 \<and> row_index r1 < row_index r2)
                 \<longrightarrow> row_rank r1 < row_rank r2)"
proof -
  from update_Inr [OF assms] obtain geo :: geometry and counts totals where
    geo: "frame_geometry eph (dates st ! f) = Inr geo"
    and sel: "select_closest (geo_distances geo) = Inr (out_closest out)"
    and cd: "out_distances out = zip table_planets (map round2 (geo_distances geo))"
    and tab: "update_table st' (out_distances out) = Inr (out_table out)"
    by blast
  note len = length_geo_distances [OF geo]
  from select_closest_Inr [OF sel] obtain i where
    arg: "argmin (geo_distances geo) = Inr i" and i: "i < length table_planets"
    and closest: "out_closest out = table_planets ! i"
    by blast
  from argmin_first_min [OF arg] len have
    least: "\<forall>j<length table_planets. geo_distances geo ! i \<le> geo_distances geo ! j"
    and first: "\<forall>j<i. geo_distances geo ! i < geo_distances geo ! j"
    by simp_all
  from least have rounded:
    "\<forall>j<length table_planets. round2 (geo_distances geo ! i) \<le> round2 (geo_distances geo ! j)"
    by (simp add: round2_mono)
  from update_counts [OF assms] closest have count:
    "\<exists>c. map_of (closest_counts st) (table_planets ! i) = Some c
        \<and> closest_counts st' = dict_set (closest_counts st) (table_planets ! i) (c + 1)"
    by simp
  from update_sums [OF assms] have sums:
    "\<forall>k. map_of (distance_sums st') k =
         (case map_of (zip table_planets (map round2 (geo_distances geo))) k of
            None \<Rightarrow> map_of (distance_sums st) k
          | Some v \<Rightarrow> map_option (\<lambda>s. s + v) (map_of (distance_sums st) k))"
    unfolding cd by blast
  have keys: "map fst (zip table_planets (map round2 (geo_distances geo))) = table_planets"
    using len by simp
  from tab have tab': "update_table st' (zip table_planets (map round2 (geo_distances geo)))
                         = Inr (out_table out)"
    by (simp add: cd)
  note rows = update_table_rows [OF tab' keys]
  from rows have r1: "map row_planet (out_table out) = table_planets" by blast
  from rows have r2: "\<forall>r\<in>set (out_table out).
                 row_index r = index_of table_planets (row_planet r) + 1
               \<and> map_of (zip table_planets (map round2 (geo_distances geo))) (row_planet r)
                   = Some (row_current r)
               \<and> row_rank r =
                   index_of
                     (map fst (sort_key snd (zip table_planets (map round2 (geo_distances geo)))))
                     (row_planet r) + 1"
    by blast
  from rows have r3: "\<forall>r1\<in>set (out_table out). \<forall>r2\<in>set (out_table out).
                 row_current r1 < row_current r2
                 \<or> (row_current r1 = row_current r2 \<and> row_index r1 < row_index r2)
                 \<longrightarrow> row_rank r1 < row_rank r2"
    by blast
  show ?thesis
    using geo len i closest least first count cd rounded sums r1 r2 r3 by blast
qed

theorem closest_is_first_raw_minimum_witness:
  "update sample_ephemeris 0 (sample_after 0) = (sample_after 1, Inr sample_output)
   \<and> (\<exists>geo i. frame_geometry sample_ephemeris (dates (sample_after 0) ! 0) = Inr geo
               \<and> length (geo_distances geo) = length table_planets
               \<and> i < length table_planets
               \<and> out_closest sample_output = table_planets ! i
               \<and> (\<forall>j<length table_planets. geo_distances geo ! i \<le> geo_distances geo ! j)
               \<and> (\<forall>j<i. geo_distances geo ! i < geo_distances geo ! j)
               \<and> (\<exists>c. map_of (closest_counts (sample_after 0)) (table_planets ! i) = Some c
                      \<and> closest_counts (sample_after 1) =
                          dict_set (closest_counts (sample_after 0)) (table_planets ! i) (c + 1))
               \<and> out_distances sample_output = zip table_planets (map round2 (geo_distances geo))
               \<and> (\<forall>j<length table_planets.
                     round2 (geo_distances geo ! i) \<le> round2 (geo_distances geo ! j))
               \<and> (\<forall>k. map_of (distance_sums (sample_after 1)) k =
                     (case map_of (zip table_planets (map round2 (geo_distances geo))) k of
                        None \<Rightarrow> map_of (distance_sums (sample_after 0)) k
                      | Some v \<Rightarrow> map_option (\<lambda>s. s + v) (map_of (distance_sums (sample_after 0)) k)))
               \<and> map row_planet (out_table sample_output) = table_planets
               \<and> (\<forall>r\<in>set (out_table sample_output).
                     row_index r = index_of table_planets (row_planet r) + 1
                   \<and> map_of (zip table_planets (map round2 (geo_distances geo))) (row_planet r)
                       = Some (row_current r)
                   \<and> row_rank r =
                       index_of
                         (map fst (sort_key snd (zip table_planets (map round2 (geo_distances geo)))))
                         (row_planet r) + 1)
               \<and> (\<forall>r1\<in>set (out_table sample_output). \<forall>r2\<in>set (out_table sample_output).
                     row_current r1 < row_current r2
                     \<or> (row_current r1 = row_current r2 \<and> row_index r1 < row_index r2)
                     \<longrightarrow> row_rank r1 < row_rank r2))"
  using closest_is_first_raw_minimum [OF sample_frame_0] sample_frame_0 by blast

text \<open>
  Claim C1, as stated, fails on the sample ephemeris: Mercury (0.013 AU) and Venus
  (0.011 AU) both round to 0.01 AU, the minimal rounded distance, and Mercury comes
  first in the planet list (and has rank 1 in the table, which is ranked on the rounded
  values), yet the count incremented is that of Venus.
\<close>

theorem closest_on_rounded_counterexample:
  "update sample_ephemeris 0 (sample_after 0) = (sample_after 1, Inr sample_output)
   \<and> map fst (out_distances sample_output) =
       [''Mercury'', ''Venus'', ''Mars'', ''Jupiter'', ''Saturn'', ''Uranus'', ''Neptune'']
   \<and> map snd (out_distances sample_output) = [1 / 100, 1 / 100, 1, 2, 3, 4, 5]
   \<and> out_closest sample_output = ''Venus''
   \<and> map_of (closest_counts (sample_after 0)) ''Mercury'' = Some 0
   \<and> map_of (closest_counts (sample_after 1)) ''Mercury'' = Some 0
   \<and> map_of (closest_counts (sample_after 0)) ''Venus'' = Some 0
   \<and> map_of (closest_counts (sample_after 1)) ''Venus'' = Some 1
   \<and> map row_rank (out_table sample_output) = [1, 2, 3, 4, 5, 6, 7]"
  using sample_frame_0 by (simp add: sample_output_def sample_after_def)

section \<open>A failing ephemeris lookup\<close>

lemma heliocentric_error: "heliocentric eph name date = Inl err \<Longrightarrow> err = EphemerisError"
  by (auto simp: heliocentric_def split: option.splits)

lemma planet_positions_error:
  "planet_positions eph date ps = Inl err \<Longrightarrow> set ps \<subseteq> set planets \<Longrightarrow>
     err = EphemerisError"
proof (induction ps)
  case Nil
  then show ?case by simp
next
  case (Cons p ps)
  from Cons.prems(2) have "p \<in> fst ` set planet_map" by (simp add: planets_def)
  then obtain target where t: "map_of planet_map p = Some target"
    by (cases "map_of planet_map p") (auto simp: map_of_eq_None_iff)
  from Cons.prems(2) have sub: "set ps \<subseteq> set planets" by simp
  show ?case
  proof (cases "heliocentric eph target date")
    case (Inl e)
    with Cons.prems(1) t have "err = e" by simp
    with Inl show ?thesis by (simp add: heliocentric_error)
  next
    case (Inr v)
    with Cons.prems(1) t have "planet_positions eph date ps = Inl err"
      by (auto split: sum.splits)
    from Cons.IH [OF this sub] show ?thesis .
  qed
qed

lemma frame_geometry_error:
  "frame_geometry eph date = Inl err \<Longrightarrow> err = EphemerisError"
  using table_planets_subset
  by (auto simp: frame_geometry_def split: sum.splits
        dest: heliocentric_error planet_positions_error)

text \<open>
  Claim C6, as the code has it. When a lookup of the frame raises, \<open>update\<close> ends with
  that exception, the running sums and the closest counts are as before the frame, and
  the frame count has been incremented by 1: the increment is the first statement after
  the date is fetched.
\<close>

theorem lookup_failure_effect:
  assumes "f < length (dates st)" and "frame_geometry eph (dates st ! f) = Inl err"
  shows "update eph f st = (st\<lparr>frame_count := frame_count st + 1\<rparr>, Inl EphemerisError)
       \<and> distance_sums (fst (update eph f st)) = distance_sums st
       \<and> closest_counts (fst (update eph f st)) = closest_counts st
       \<and> frame_count (fst (update eph f st)) = frame_count st + 1"
proof -
  from frame_geometry_error [OF assms(2)] have "err = EphemerisError" .
  with assms show ?thesis by (simp add: update_def Let_def)
qed

lemma empty_geometry: "frame_geometry empty_ephemeris date = Inl EphemerisError"
  by (simp add: frame_geometry_def heliocentric_def empty_ephemeris_def)

theorem lookup_failure_effect_witness:
  "0 < length (dates sample_state)
   \<and> frame_geometry empty_ephemeris (dates sample_state ! 0) = Inl EphemerisError
   \<and> update empty_ephemeris 0 sample_state =
       (sample_state\<lparr>frame_count := frame_count sample_state + 1\<rparr>, Inl EphemerisError)
   \<and> distance_sums (fst (update empty_ephemeris 0 sample_state)) = distance_sums sample_state
   \<and> closest_counts (fst (update empty_ephemeris 0 sample_state)) = closest_counts sample_state
   \<and> frame_count (fst (update empty_ephemeris 0 sample_state)) = frame_count sample_state + 1"
proof -
  have len: "0 < length (dates sample_state)" by (simp add: sample_state_def)
  from lookup_failure_effect [OF len empty_geometry] len empty_geometry
  show ?thesis by blast
qed

text \<open>
  Claim C6, as stated, fails: with an ephemeris that covers no date the first frame of
  the sample state raises, and the state is not the one before the frame, since the
  frame count went from 0 to 1.
\<close>

theorem lookup_failure_atomicity_counterexample:
  "snd (update empty_ephemeris 0 sample_state) = Inl EphemerisError
   \<and> frame_count sample_state = 0
   \<and> frame_count (fst (update empty_ephemeris 0 sample_state)) = 1
   \<and> fst (update empty_ephemeris 0 sample_state) \<noteq> sample_state"
proof -
  have u: "update empty_ephemeris 0 sample_state =
             (sample_state\<lparr>frame_count := frame_count sample_state + 1\<rparr>, Inl EphemerisError)"
    by (simp add: update_def Let_def empty_geometry sample_state_def)
  have z: "frame_count sample_state = 0"
    by (simp add: sample_state_def module_globals_def)
  have "frame_count (sample_state\<lparr>frame_count := frame_count sample_state + 1\<rparr>)
          \<noteq> frame_count sample_state"
    by simp
  then have "sample_state\<lparr>frame_count := frame_count sample_state + 1\<rparr> \<noteq> sample_state"
    by metis
  with u z show ?thesis by simp
qed

section \<open>Determinism of a frame\<close>

lemma heliocentric_cong:
  assumes "\<forall>name. eph1 name date = eph2 name date"
  shows "heliocentric eph1 name date = heliocentric eph2 name date"
proof -
  from assms have e: "eph1 name date = eph2 name date" "eph1 ''SUN'' date = eph2 ''SUN'' date"
    by simp_all
  show ?thesis unfolding heliocentric_def e by (rule refl)
qed

lemma planet_positions_cong:
  assumes "\<forall>name. eph1 name date = eph2 name date"
  shows "planet_positions eph1 date ps = planet_positions eph2 date ps"
proof (induction ps)
  case Nil
  show ?case by simp
next
  case (Cons p ps)
  have h: "heliocentric eph1 target date = heliocentric eph2 target date" for target
    using assms by (rule heliocentric_cong)
  show ?case unfolding planet_positions.simps h Cons.IH by (rule refl)
qed

lemma frame_geometry_cong:
  assumes "\<forall>name. eph1 name date = eph2 name date"
  shows "frame_geometry eph1 date = frame_geometry eph2 date"
proof -
  have h: "heliocentric eph1 name date = heliocentric eph2 name date" for name
    using assms by (rule heliocentric_cong)
  have p: "planet_positions eph1 date ps = planet_positions eph2 date ps" for ps
    using assms by (rule planet_positions_cong)
  show ?thesis unfolding frame_geometry_def h p by (rule refl)
qed

lemma percentage_of_cong:
  assumes "frame_count a = frame_count b" and "closest_counts a = closest_counts b"
  shows "percentage_of a p = percentage_of b p"
  unfolding percentage_of_def assms by (rule refl)

lemma closest_percentage_cong:
  assumes "frame_count a = frame_count b" and "closest_counts a = closest_counts b"
  shows "closest_percentage a acc ps = closest_percentage b acc ps"
proof (induction ps arbitrary: acc)
  case Nil
  show ?case by simp
next
  case (Cons p ps)
  show ?case
    unfolding closest_percentage.simps percentage_of_cong [OF assms] Cons.IH by (rule refl)
qed

lemma avg_distance_cong:
  assumes "frame_count a = frame_count b" and "distance_sums a = distance_sums b"
  shows "avg_distance a p = avg_distance b p"
  unfolding avg_distance_def assms by (rule refl)

lemma table_rows_cong:
  assumes "frame_count a = frame_count b" and "distance_sums a = distance_sums b"
  shows "table_rows a cd order pct i ps = table_rows b cd order pct i ps"
proof (induction ps arbitrary: i)
  case Nil
  show ?case by simp
next
  case (Cons p ps)
  show ?case
    unfolding table_rows.simps avg_distance_cong [OF assms] Cons.IH by (rule refl)
qed

lemma update_table_cong:
  assumes "frame_count a = frame_count b" and "closest_counts a = closest_counts b"
    and "distance_sums a = distance_sums b"
  shows "update_table a cd = update_table b cd"
  unfolding update_table_def closest_percentage_cong [OF assms(1,2)]
    table_rows_cong [OF assms(1,3)]
  by (rule refl)

lemma count_closest_cong:
  assumes "frame_count a = frame_count b" and "closest_counts a = closest_counts b"
    and "distance_sums a = distance_sums b"
  shows "snd (count_closest a geo cd p) = snd (count_closest b geo cd p)
       \<and> frame_count (fst (count_closest a geo cd p)) = frame_count (fst (count_closest b geo cd p))
       \<and> closest_counts (fst (count_closest a geo cd p)) = closest_counts (fst (count_closest b geo cd p))
       \<and> distance_sums (fst (count_closest a geo cd p)) = distance_sums (fst (count_closest b geo cd p))"
proof -
  have t: "update_table (a\<lparr>closest_counts := c\<rparr>) cd = update_table (b\<lparr>closest_counts := c\<rparr>) cd" for c
    using assms by (intro update_table_cong) simp_all
  show ?thesis
    unfolding count_closest_def Let_def assms(2) t
    using assms by (simp split: sum.splits)
qed

lemma accumulate_cong:
  assumes "frame_count a = frame_count b" and "closest_counts a = closest_counts b"
    and "distance_sums a = distance_sums b"
  shows "snd (accumulate a geo p) = snd (accumulate b geo p)
       \<and> frame_count (fst (accumulate a geo p)) = frame_count (fst (accumulate b geo p))
       \<and> closest_counts (fst (accumulate a geo p)) = closest_counts (fst (accumulate b geo p))
       \<and> distance_sums (fst (accumulate a geo p)) = distance_sums (fst (accumulate b geo p))"
proof -
  obtain totals err where ad:
    "add_distances (distance_sums b) (dict_of_items (zip table_planets (map round2 (geo_distances geo))))
       = (totals, err)"
    by (cases "add_distances (distance_sums b) (dict_of_items (zip table_planets (map round2 (geo_distances geo))))")
  show ?thesis
  proof (cases err)
    case None
    have "frame_count (a\<lparr>distance_sums := totals\<rparr>) = frame_count (b\<lparr>distance_sums := totals\<rparr>)"
      "closest_counts (a\<lparr>distance_sums := totals\<rparr>) = closest_counts (b\<lparr>distance_sums := totals\<rparr>)"
      "distance_sums (a\<lparr>distance_sums := totals\<rparr>) = distance_sums (b\<lparr>distance_sums := totals\<rparr>)"
      using assms by simp_all
    from count_closest_cong [OF this] show ?thesis
      by (simp add: accumulate_def Let_def assms(3) ad None)
  next
    case (Some e)
    then show ?thesis using assms by (simp add: accumulate_def Let_def ad)
  qed
qed

lemma update_cong:
  assumes "frame_count a = frame_count b" and "closest_counts a = closest_counts b"
    and "distance_sums a = distance_sums b" and "dates a = dates b"
    and "\<forall>name. eph1 name (dates a ! f) = eph2 name (dates a ! f)"
  shows "snd (update eph1 f a) = snd (update eph2 f b)
       \<and> frame_count (fst (update eph1 f a)) = frame_count (fst (update eph2 f b))
       \<and> closest_counts (fst (update eph1 f a)) = closest_counts (fst (update eph2 f b))
       \<and> distance_sums (fst (update eph1 f a)) = distance_sums (fst (update eph2 f b))"
proof (cases "length (dates a) \<le> f")
  case True
  then show ?thesis using assms by (simp add: update_def)
next
  case False
  have s: "frame_count (a\<lparr>frame_count := frame_count a + 1\<rparr>) = frame_count (b\<lparr>frame_count := frame_count b + 1\<rparr>)"
      "closest_counts (a\<lparr>frame_count := frame_count a + 1\<rparr>) = closest_counts (b\<lparr>frame_count := frame_count b + 1\<rparr>)"
      "distance_sums (a\<lparr>frame_count := frame_count a + 1\<rparr>) = distance_sums (b\<lparr>frame_count := frame_count b + 1\<rparr>)"
    using assms by simp_all
  have g: "frame_geometry eph1 (dates a ! f) = frame_geometry eph2 (dates b ! f)"
    using assms(4,5) by (simp add: frame_geometry_cong)
  show ?thesis
  proof (cases "frame_geometry eph2 (dates b ! f)")
    case (Inl e)
    then show ?thesis using False assms g by (simp add: update_def Let_def)
  next
    case (Inr geo)
    show ?thesis
    proof (cases "select_closest (geo_distances geo)")
      case (Inl e)
      then show ?thesis using False assms g Inr by (simp add: update_def Let_def)
    next
      case p: (Inr p)
      from accumulate_cong [OF s] show ?thesis
        using False assms(4) g Inr p by (simp add: update_def Let_def)
    qed
  qed
qed

text \<open>
  Claim C9. A frame is a function of the statistics, the date list and the positions the
  ephemeris returns for its date: two runs of the same frame number, each on a freshly
  reset state with the same date list, with ephemerides that return the same positions
  at that date, end the same way (the same exception, or the same positions, rounded
  distances, table with its ranks, and closest planet) and leave the same statistics.
\<close>

theorem update_deterministic:
  assumes "dates st1 = dates st2"
    and "\<forall>name. eph1 name (dates st1 ! f) = eph2 name (dates st1 ! f)"
  shows "snd (update eph1 f (reset st1)) = snd (update eph2 f (reset st2))
       \<and> frame_count (fst (update eph1 f (reset st1))) =
           frame_count (fst (update eph2 f (reset st2)))
       \<and> closest_counts (fst (update eph1 f (reset st1))) =
           closest_counts (fst (update eph2 f (reset st2)))
       \<and> distance_sums (fst (update eph1 f (reset st1))) =
           distance_sums (fst (update eph2 f (reset st2)))"
proof (rule update_cong)
  show "frame_count (reset st1) = frame_count (reset st2)" by (simp add: reset_def)
  show "closest_counts (reset st1) = closest_counts (reset st2)" by (simp add: reset_def)
  show "distance_sums (reset st1) = distance_sums (reset st2)" by (simp add: reset_def)
  show "dates (reset st1) = dates (reset st2)" using assms(1) by (simp add: reset_def)
  show "\<forall>name. eph1 name (dates (reset st1) ! f) = eph2 name (dates (reset st1) ! f)"
    using assms(2) by (simp add: reset_def)
qed

theorem update_deterministic_witness:
  "dates sample_state = dates (type_start_year ''2000'' sample_state)
   \<and> (\<forall>name. sample_ephemeris name (dates sample_state ! 0) =
               day_zero_ephemeris name (dates sample_state ! 0))
   \<and> snd (update sample_ephemeris 0 (reset sample_state)) =
       snd (update day_zero_ephemeris 0 (reset (type_start_year ''2000'' sample_state)))
   \<and> frame_count (fst (update sample_ephemeris 0 (reset sample_state))) =
       frame_count (fst (update day_zero_ephemeris 0 (reset (type_start_year ''2000'' sample_state))))
   \<and> closest_counts (fst (update sample_ephemeris 0 (reset sample_state))) =
       closest_counts (fst (update day_zero_ephemeris 0 (reset (type_start_year ''2000'' sample_state))))
   \<and> distance_sums (fst (update sample_ephemeris 0 (reset sample_state))) =
       distance_sums (fst (update day_zero_ephemeris 0 (reset (type_start_year ''2000'' sample_state))))"
proof -
  have d: "dates sample_state = dates (type_start_year ''2000'' sample_state)"
    by (simp add: type_start_year_def)
  have e: "\<forall>name. sample_ephemeris name (dates sample_state ! 0) =
               day_zero_ephemeris name (dates sample_state ! 0)"
    by (simp add: sample_state_def day_zero_ephemeris_def)
  from update_deterministic [of sample_state "type_start_year ''2000'' sample_state"
      sample_ephemeris 0 day_zero_ephemeris, OF d e] d e
  show ?thesis by blast
qed

section \<open>The year text boxes\<close>

lemma start_simulation_unit_step:
  assumes "step_days st = 1"
  shows "dates (fst (start_simulation jan1_tt st)) =
           map (\<lambda>i. jan1_tt (start_year st) + real_of_int i)
             (range_up 0 ((end_year st - start_year st) * 365) 1)
       \<and> start_year (fst (start_simulation jan1_tt st)) = start_year st
       \<and> end_year (fst (start_simulation jan1_tt st)) = end_year st"
  using assms
  by (simp add: start_simulation_def update_dates_def time_sequence_def py_range_def reset_def
        Let_def split: option.splits)

text \<open>
  Claim C2 against the code. The start callback regenerates the dates from the globals
  \<open>start_year\<close> and \<open>end_year\<close>, and nothing in the script ever assigns them: the two
  text boxes have no callback. After typing 2000 and 2001 into the boxes and pressing
  start, the globals are still 0 and 2999 and the sequence has 2999 * 365 = 1094635
  points from January 1 of year 0; whatever is typed, the dates are those of a start
  without typing.
\<close>

theorem year_text_boxes_ignored:
  "start_year (fst (start_simulation jan1_tt
       (type_end_year ''2001'' (type_start_year ''2000'' (initial_state jan1_tt))))) = 0
   \<and> end_year (fst (start_simulation jan1_tt
       (type_end_year ''2001'' (type_start_year ''2000'' (initial_state jan1_tt))))) = 2999
   \<and> length (dates (fst (start_simulation jan1_tt
       (type_end_year ''2001'' (type_start_year ''2000'' (initial_state jan1_tt)))))) = 1094635
   \<and> dates (fst (start_simulation jan1_tt
       (type_end_year ''2001'' (type_start_year ''2000'' (initial_state jan1_tt))))) ! 0
       = jan1_tt 0
   \<and> dates (fst (start_simulation jan1_tt (type_end_year e (type_start_year s st))))
       = dates (fst (start_simulation jan1_tt st))"
proof -
  let ?typed = "type_end_year ''2001'' (type_start_year ''2000'' (initial_state jan1_tt))"
  have init: "initial_state jan1_tt =
                module_globals\<lparr>dates := map (\<lambda>i. jan1_tt 0 + real_of_int i)
                                          (range_up 0 1094635 1)\<rparr>"
    by (simp add: initial_state_def update_dates_def time_sequence_def py_range_def
          module_globals_def)
  have fields: "step_days ?typed = 1" "start_year ?typed = 0" "end_year ?typed = 2999"
    by (simp_all add: init type_end_year_def type_start_year_def module_globals_def)
  have len: "length (range_up 0 1094635 1) = 1094635"
    using length_range_up [of 1 0 1094635] by simp
  have first: "range_up 0 1094635 1 ! 0 = 0"
    using nth_range_up [of 1 0 0 1094635] len by simp
  from start_simulation_unit_step [OF fields(1), of jan1_tt]
  have started: "dates (fst (start_simulation jan1_tt ?typed)) =
                   map (\<lambda>i. jan1_tt 0 + real_of_int i) (range_up 0 1094635 1)"
    and a: "start_year (fst (start_simulation jan1_tt ?typed)) = 0"
    and b: "end_year (fst (start_simulation jan1_tt ?typed)) = 2999"
    by (simp_all add: fields)
  have c: "length (dates (fst (start_simulation jan1_tt ?typed))) = 1094635"
    by (simp add: started len)
  have d: "dates (fst (start_simulation jan1_tt ?typed)) ! 0 = jan1_tt 0"
    using first len by (simp add: started)
  have g: "dates (fst (start_simulation jan1_tt (type_end_year e (type_start_year s st))))
       = dates (fst (start_simulation jan1_tt st))"
    by (simp add: start_simulation_def update_dates_def reset_def type_end_year_def
          type_start_year_def Let_def split: sum.splits option.splits)
  from a b c d g show ?thesis by blast
qed

end
